theory Spec2Isabelle
  imports Main
begin

section \<open>The ledger: the Gallery sheet of apps-script.gs\<close>

text \<open>
  One data row of the Gallery sheet. The columns are those of \<open>headersList\<close> in
  \<open>ensureGallerySheet\<close> that the video lifecycle reads or writes; the column \<open>id\<close> is
  called \<open>rid\<close> and the column \<open>type\<close> is called \<open>rtype\<close>. The display columns
  (conceptName, imageUrl, downloadUrl, token, eventId, originalId, relatedPhotoId,
  sessionFolderUrl) are written once by the upload action and never read again by the
  actions modelled here. A cell is a string; the empty cell is the empty string.
\<close>

record row =
  rid :: string
  createdAt :: string
  updatedAt :: string
  rtype :: string
  providerUrl :: string
  sessionFolderId :: string
  videoStatus :: string
  videoTaskId :: string
  videoPrompt :: string
  videoFileId :: string
  videoResolution :: string
  videoModel :: string

text \<open>The sheet is its list of data rows, \<open>values[1..]\<close>, in sheet order.\<close>

type_synonym sheet = "row list"

text \<open>
  The parsed request body \<open>data\<close> of \<open>doPost\<close>: a flat JSON object with an
  \<open>action\<close> discriminator. A field that the request leaves out is \<open>None\<close>. The fields
  \<open>providerUrl\<close> and \<open>sessionFolderId\<close> of the body carry the prefix \<open>data\<close>, since a
  row has columns of the same names.
\<close>

record post_data =
  action :: string
  photoId :: "string option"
  status :: "string option"
  taskId :: "string option"
  dataProviderUrl :: "string option"
  requireStatus :: "string option"
  prompt :: "string option"
  resolution :: "string option"
  model :: "string option"
  videoUrl :: "string option"
  dataSessionFolderId :: "string option"
  folderId :: "string option"
  image :: "string option"
  skipGallery :: bool

text \<open>JavaScript's test \<open>if (v)\<close> on a string field: absent and empty are both falsy.\<close>

definition truthy :: "string option \<Rightarrow> bool" where
  "truthy v = (case v of None \<Rightarrow> False | Some s \<Rightarrow> s \<noteq> [])"

text \<open>
  The JSON objects that \<open>createJsonResponse\<close> is given in the modelled actions:
  \<open>{ok:true}\<close>, \<open>{ok:true, message}\<close>, \<open>{ok:true, fileId, folderId}\<close>,
  \<open>{ok:true, id}\<close>, \<open>{ok:false, error}\<close> and
  \<open>{ok:false, error:'Status mismatch', current}\<close>. The function \<open>ok\<close> reads the
  field \<open>ok\<close>.
\<close>

datatype json_response =
    JsonOk
  | JsonOkMessage string
  | JsonOkFile string string
  | JsonOkId string
  | JsonError string
  | JsonMismatch string

fun ok :: "json_response \<Rightarrow> bool" where
  "ok JsonOk = True"
| "ok (JsonOkMessage m) = True"
| "ok (JsonOkFile f d) = True"
| "ok (JsonOkId i) = True"
| "ok (JsonError e) = False"
| "ok (JsonMismatch c) = False"

text \<open>
  The search loop that every row action repeats:
  \<open>for (i = 1; i < values.length; i++) if (values[i][idIndex] === data.photoId) ...\<close>.
  It stops at the first row whose id is the requested one. The result is the position
  among the data rows.
\<close>

fun findRow :: "string option \<Rightarrow> sheet \<Rightarrow> nat option" where
  "findRow pid [] = None"
| "findRow pid (r # rs) =
     (if Some (rid r) = pid then Some 0 else map_option Suc (findRow pid rs))"

text \<open>
  Requests are modelled one at a time, so the script lock is free when \<open>tryLock\<close> asks
  for it and \<open>executeWithLock\<close> runs its callback.
\<close>

definition executeWithLock :: "(sheet \<Rightarrow> 'a \<times> sheet) \<Rightarrow> sheet \<Rightarrow> 'a \<times> sheet" where
  "executeWithLock callback sh = callback sh"

subsection \<open>queueVideo\<close>

definition queueWrites :: "string \<Rightarrow> post_data \<Rightarrow> row \<Rightarrow> row" where
  "queueWrites nowIso d r =
     (let r1 = r\<lparr>videoStatus := ''queued''\<rparr>;
          r2 = (if truthy (prompt d) then r1\<lparr>videoPrompt := the (prompt d)\<rparr> else r1);
          r3 = (if truthy (resolution d) then r2\<lparr>videoResolution := the (resolution d)\<rparr> else r2);
          r4 = (if truthy (model d) then r3\<lparr>videoModel := the (model d)\<rparr> else r3)
      in r4\<lparr>updatedAt := nowIso\<rparr>)"

definition queueVideo :: "string \<Rightarrow> post_data \<Rightarrow> sheet \<Rightarrow> json_response \<times> sheet" where
  "queueVideo nowIso d =
     executeWithLock (\<lambda>sh.
       case findRow (photoId d) sh of
         Some i \<Rightarrow> (JsonOk, sh[i := queueWrites nowIso d (sh ! i)])
       | None \<Rightarrow> (JsonError ''Photo ID not found'', sh))"

subsection \<open>updateVideoStatus\<close>

definition statusWrites :: "string \<Rightarrow> post_data \<Rightarrow> row \<Rightarrow> row" where
  "statusWrites nowIso d r =
     (let r1 = (if truthy (status d) then r\<lparr>videoStatus := the (status d)\<rparr> else r);
          r2 = (if truthy (taskId d) then r1\<lparr>videoTaskId := the (taskId d)\<rparr> else r1);
          r3 = (if truthy (dataProviderUrl d)
                then r2\<lparr>providerUrl := the (dataProviderUrl d)\<rparr> else r2)
      in r3\<lparr>updatedAt := nowIso\<rparr>)"

definition updateVideoStatus :: "string \<Rightarrow> post_data \<Rightarrow> sheet \<Rightarrow> json_response \<times> sheet" where
  "updateVideoStatus nowIso d =
     executeWithLock (\<lambda>sh.
       case findRow (photoId d) sh of
         Some i \<Rightarrow>
           (let currentStatus = videoStatus (sh ! i) in
            if truthy (requireStatus d) \<and> Some currentStatus \<noteq> requireStatus d
            then (JsonMismatch currentStatus, sh)
            else (JsonOk, sh[i := statusWrites nowIso d (sh ! i)]))
       | None \<Rightarrow> (JsonError ''Photo ID not found'', sh))"

subsection \<open>External calls\<close>

text \<open>A call into Drive, UrlFetchApp or the network either throws or returns.\<close>

datatype 'a outcome = Throws string | Returns 'a

text \<open>
  What the services outside the script answer during one request. \<open>fetchVideo\<close> is
  \<open>UrlFetchApp.fetch(videoUrl, {muteHttpExceptions: true, followRedirects: true})\<close>
  followed by \<open>getResponseCode()\<close>; \<open>getBlob\<close> stands for \<open>getBlob\<close> and
  \<open>setName\<close>; \<open>newBlob\<close> for \<open>Utilities.newBlob(Utilities.base64Decode(
  data.image.split(',')[1]), ...)\<close>; \<open>folderIdProperty\<close> is the script property
  \<open>FOLDER_ID\<close>, which may be unset; \<open>createFile\<close> returns the id of the new file.
\<close>

record drive_env =
  fetchVideo :: "string \<Rightarrow> nat outcome"
  getBlob :: "unit outcome"
  newBlob :: "string option \<Rightarrow> unit outcome"
  getFolderById :: "string option \<Rightarrow> string outcome"
  folderIdProperty :: "string option"
  getRootFolder :: "string outcome"
  createFile :: "string \<Rightarrow> string outcome"
  setSharing :: "string \<Rightarrow> unit outcome"

text \<open>
  What a request can change: the Gallery sheet, the files created in Drive (file id and
  folder), and the list of URLs that were downloaded.
\<close>

record world =
  gallery :: sheet
  driveFiles :: "(string \<times> string) list"
  downloads :: "string list"

text \<open>Nothing uploaded yet.\<close>

definition emptyWorld :: world where
  "emptyWorld = \<lparr>gallery = [], driveFiles = [], downloads = []\<rparr>"

text \<open>String concatenation with a number, as in \<open>"Fetch Failed HTTP " + code\<close>.\<close>

fun decimal :: "nat \<Rightarrow> string" where
  "decimal n =
     (if n < 10 then [''0123456789'' ! n]
      else decimal (n div 10) @ [''0123456789'' ! (n mod 10)])"

subsection \<open>finalizeVideoUpload\<close>

datatype pre_check = Skip string | Proceed

definition preCheck :: "string option \<Rightarrow> sheet \<Rightarrow> pre_check \<times> sheet" where
  "preCheck pid =
     executeWithLock (\<lambda>sh.
       case findRow pid sh of
         Some i \<Rightarrow>
           (let status = videoStatus (sh ! i); fileId = videoFileId (sh ! i) in
            if status = ''done'' \<or> fileId \<noteq> [] then (Skip ''Already uploaded'', sh)
            else (Proceed, sh))
       | None \<Rightarrow> (Skip ''Photo ID not found'', sh))"

text \<open>
  The destination folder: the session folder when it is given and can be opened, else the
  folder of the \<open>FOLDER_ID\<close> property, else the root folder. An exception of
  \<open>getFolderById\<close> is swallowed; one of \<open>getRootFolder\<close> is not.
\<close>

definition resolveFolder :: "drive_env \<Rightarrow> string option \<Rightarrow> string outcome" where
  "resolveFolder env sessionFolder =
     (let folder = (if truthy sessionFolder
                    then (case getFolderById env sessionFolder of
                            Returns f \<Rightarrow> Some f | Throws e \<Rightarrow> None)
                    else None)
      in case folder of
           Some f \<Rightarrow> Returns f
         | None \<Rightarrow>
             (case getFolderById env (folderIdProperty env) of
                Returns f \<Rightarrow> Returns f
              | Throws e \<Rightarrow> getRootFolder env))"

text \<open>
  The statements of the \<open>try\<close> block after the HTTP check: blob, folder, \<open>createFile\<close>,
  \<open>setSharing\<close>. A resolved folder is an object, so the test \<open>if (!folder)\<close> that
  follows the resolution never fires. The result is \<open>(fileId, folderId)\<close>, or the
  exception that reaches the \<open>catch\<close>.
\<close>

definition saveVideo ::
  "drive_env \<Rightarrow> string option \<Rightarrow> world \<Rightarrow> (string \<times> string) outcome \<times> world" where
  "saveVideo env sessionFolder w =
     (case getBlob env of
        Throws e \<Rightarrow> (Throws e, w)
      | Returns u \<Rightarrow>
          (case resolveFolder env sessionFolder of
             Throws e \<Rightarrow> (Throws e, w)
           | Returns folder \<Rightarrow>
               (case createFile env folder of
                  Throws e \<Rightarrow> (Throws e, w)
                | Returns file \<Rightarrow>
                    (let w' = w\<lparr>driveFiles := driveFiles w @ [(file, folder)]\<rparr> in
                     case setSharing env file of
                       Throws e \<Rightarrow> (Throws e, w')
                     | Returns u' \<Rightarrow> (Returns (file, folder), w')))))"

text \<open>The compensating write of the \<open>catch\<close> block: only the status cell is set.\<close>

definition markFailed :: "string option \<Rightarrow> sheet \<Rightarrow> unit \<times> sheet" where
  "markFailed pid =
     executeWithLock (\<lambda>sh.
       case findRow pid sh of
         Some i \<Rightarrow> ((), sh[i := (sh ! i)\<lparr>videoStatus := ''failed''\<rparr>])
       | None \<Rightarrow> ((), sh))"

definition recordDone ::
  "string \<Rightarrow> string option \<Rightarrow> string \<Rightarrow> string \<Rightarrow> sheet \<Rightarrow> json_response \<times> sheet" where
  "recordDone nowIso pid fileId folder =
     executeWithLock (\<lambda>sh.
       case findRow pid sh of
         None \<Rightarrow> (JsonError ''Photo ID not found'', sh)
       | Some i \<Rightarrow>
           (JsonOkFile fileId folder,
            sh[i := (sh ! i)\<lparr>videoStatus := ''done'', videoFileId := fileId,
                               updatedAt := nowIso\<rparr>]))"

definition normalizeSessionFolder :: "string option \<Rightarrow> string option" where
  "normalizeSessionFolder s =
     (if s = Some ''undefined'' \<or> s = Some ''null'' \<or> s = Some [] then None else s)"

definition finalizeVideoUpload ::
  "drive_env \<Rightarrow> string \<Rightarrow> post_data \<Rightarrow> world \<Rightarrow> json_response \<times> world" where
  "finalizeVideoUpload env nowIso d w =
     (if \<not> truthy (photoId d) \<or> \<not> truthy (videoUrl d)
      then (JsonError ''Missing photoId or videoUrl'', w)
      else
        (let sessionFolder = normalizeSessionFolder (dataSessionFolderId d) in
         case fst (preCheck (photoId d) (gallery w)) of
           Skip reason \<Rightarrow> (JsonOkMessage reason, w)
         | Proceed \<Rightarrow>
             (let w1 = w\<lparr>downloads := downloads w @ [the (videoUrl d)]\<rparr> in
              case fetchVideo env (the (videoUrl d)) of
                Throws fetchErr \<Rightarrow> (JsonError (''Fetch Error: '' @ fetchErr), w1)
              | Returns code \<Rightarrow>
                  if code \<noteq> 200
                  then (JsonError (''Fetch Failed HTTP '' @ decimal code), w1)
                  else
                    (case saveVideo env sessionFolder w1 of
                       (Throws e, w2) \<Rightarrow>
                         (JsonError (''Save Error: '' @ e),
                          w2\<lparr>gallery := snd (markFailed (photoId d) (gallery w2))\<rparr>)
                     | (Returns (fileId, folder), w2) \<Rightarrow>
                         (case recordDone nowIso (photoId d) fileId folder (gallery w2) of
                            (resp, sh) \<Rightarrow> (resp, w2\<lparr>gallery := sh\<rparr>))))))"

subsection \<open>uploadGenerated and uploadGeneratedVideo\<close>

text \<open>\<open>new Array(headers.length).fill("")\<close>: the row before the \<open>map\<close> is copied in.\<close>

definition blankRow :: row where
  "blankRow = \<lparr>rid = [], createdAt = [], updatedAt = [], rtype = [], providerUrl = [],
     sessionFolderId = [], videoStatus = [], videoTaskId = [], videoPrompt = [],
     videoFileId = [], videoResolution = [], videoModel = []\<rparr>"

text \<open>JavaScript's \<open>v || dflt\<close> on a string field.\<close>

definition orElse :: "string option \<Rightarrow> string \<Rightarrow> string" where
  "orElse v dflt = (if truthy v then the v else dflt)"

definition uploadFile :: "drive_env \<Rightarrow> post_data \<Rightarrow> world \<Rightarrow> string outcome \<times> world" where
  "uploadFile env d w =
     (let targetFolderId = (if truthy (folderId d) then folderId d else folderIdProperty env);
          folder = (case getFolderById env targetFolderId of
                      Returns f \<Rightarrow> Returns f | Throws e \<Rightarrow> getRootFolder env)
      in case folder of
           Throws e \<Rightarrow> (Throws e, w)
         | Returns f \<Rightarrow>
             (case newBlob env (image d) of
                Throws e \<Rightarrow> (Throws e, w)
              | Returns u \<Rightarrow>
                  (case createFile env f of
                     Throws e \<Rightarrow> (Throws e, w)
                   | Returns file \<Rightarrow>
                       (let w' = w\<lparr>driveFiles := driveFiles w @ [(file, f)]\<rparr> in
                        case setSharing env file of
                          Throws e \<Rightarrow> (Throws e, w')
                        | Returns u' \<Rightarrow> (Returns file, w')))))"

definition galleryRow :: "string \<Rightarrow> post_data \<Rightarrow> string \<Rightarrow> row" where
  "galleryRow nowIso d file =
     (let isVideo = (action d = ''uploadGeneratedVideo'') in
      blankRow\<lparr>rid := file, createdAt := nowIso, updatedAt := nowIso,
        rtype := (if isVideo then ''video'' else ''image''),
        sessionFolderId := orElse (dataSessionFolderId d) [],
        videoStatus := (if isVideo then ''done'' else ''idle''),
        videoFileId := (if isVideo then file else [])\<rparr>)"

definition uploadGenerated ::
  "drive_env \<Rightarrow> string \<Rightarrow> post_data \<Rightarrow> world \<Rightarrow> json_response \<times> world" where
  "uploadGenerated env nowIso d w =
     (case uploadFile env d w of
        (Throws e, w') \<Rightarrow> (JsonError (''Drive Upload Failed: '' @ e), w')
      | (Returns file, w') \<Rightarrow>
          if \<not> skipGallery d
          then (JsonOkId file, w'\<lparr>gallery := gallery w' @ [galleryRow nowIso d file]\<rparr>)
          else (JsonOkId file, w'))"

text \<open>The empty JSON object, to which a caller adds the fields it sends.\<close>

definition emptyData :: post_data where
  "emptyData = \<lparr>action = [], photoId = None, status = None, taskId = None,
     dataProviderUrl = None, requireStatus = None, prompt = None, resolution = None,
     model = None, videoUrl = None, dataSessionFolderId = None, folderId = None,
     image = None, skipGallery = False\<rparr>"

section \<open>The requests that the endpoints send to the ledger\<close>

text \<open>
  The body of the lock request that the tick sends once the provider reports success:
  \<open>{action:'updateVideoStatus', photoId: task.id, status:'uploading',
  providerUrl: videoUrl, requireStatus:'processing'}\<close>.
\<close>

definition lockPayload :: "row \<Rightarrow> string \<Rightarrow> post_data" where
  "lockPayload task url =
     emptyData\<lparr>action := ''updateVideoStatus'', photoId := Some (rid task),
       status := Some ''uploading'', dataProviderUrl := Some url,
       requireStatus := Some ''processing''\<rparr>"

text \<open>
  The body of the request that triggers the finalizer:
  \<open>{action:'finalizeVideoUpload', photoId: task.id, videoUrl: videoUrl,
  sessionFolderId: task.sessionFolderId}\<close>.
\<close>

definition finalizePayload :: "row \<Rightarrow> string \<Rightarrow> post_data" where
  "finalizePayload task url =
     emptyData\<lparr>action := ''finalizeVideoUpload'', photoId := Some (rid task),
       videoUrl := Some url, dataSessionFolderId := Some (sessionFolderId task)\<rparr>"

text \<open>
  The other two bodies that the tick sends to \<open>updateVideoStatus\<close>: the failure report
  \<open>{photoId: task.id, status:'failed'}\<close>, and the start report
  \<open>{photoId: task.id, status:'processing', taskId}\<close>. The generate endpoint sends the
  start report with \<open>photoId: driveFileId\<close> and two more fields, \<open>videoModel\<close> and
  \<open>videoResolution\<close>, which \<open>updateVideoStatus\<close> does not read.
\<close>

definition failedPayload :: "row \<Rightarrow> post_data" where
  "failedPayload task =
     emptyData\<lparr>action := ''updateVideoStatus'', photoId := Some (rid task),
       status := Some ''failed''\<rparr>"

definition startedPayload :: "string \<Rightarrow> string \<Rightarrow> post_data" where
  "startedPayload pid tid =
     emptyData\<lparr>action := ''updateVideoStatus'', photoId := Some pid,
       status := Some ''processing'', taskId := Some tid\<rparr>"

section \<open>The provider client of lib/ark.ts\<close>

text \<open>\<open>s.startsWith(p)\<close> and \<open>s.includes(p)\<close> (here \<open>includesStr\<close>) on strings.\<close>

definition startsWith :: "string \<Rightarrow> string \<Rightarrow> bool" where
  "startsWith s p = (take (length p) s = p)"

fun includesStr :: "string \<Rightarrow> string \<Rightarrow> bool" where
  "includesStr [] p = (p = [])"
| "includesStr (c # cs) p = (startsWith (c # cs) p \<or> includesStr cs p)"

text \<open>
  The JSON body that is posted to \<open>/contents/generations/tasks\<close>: the model, the
  \<open>content\<close> list (one text item, and one image item when there is an image) and the
  \<open>parameters\<close> object.
\<close>

record ark_request =
  ark_model :: string
  ark_text :: string
  ark_image_url :: "string option"
  ark_duration :: nat
  ark_resolution :: string
  ark_audio :: bool

text \<open>
  What the provider does with a start request: the \<open>fetch\<close> (or the parsing of its
  answer) throws, the answer is not \<open>ok\<close> (status and text), or it is a JSON object of
  which \<open>id\<close> and \<open>Result.id\<close> are read.
\<close>

datatype ark_reply =
    ArkThrows string
  | ArkHttpError nat string
  | ArkJson "string option" "string option"

text \<open>The argument of \<open>startArkVideoTask\<close>.\<close>

record ark_payload =
  p_model :: string
  p_prompt :: string
  p_image_url :: "string option"
  p_duration :: "nat option"
  p_resolution :: "string option"

definition allowedResolutions :: "string list" where
  "allowedResolutions = [''480p'', ''720p'']"

text \<open>
  The result is what the function returns or throws, and the list of requests it posted
  to the provider: none when the resolution is rejected, else one.
\<close>

definition startArkVideoTask ::
  "(ark_request \<Rightarrow> ark_reply) \<Rightarrow> ark_payload \<Rightarrow> string outcome \<times> ark_request list" where
  "startArkVideoTask provider payload =
     (let requestedRes = orElse (p_resolution payload) ''480p'' in
      if requestedRes \<notin> set allowedResolutions
      then (Throws (''Invalid resolution: '' @ requestedRes @ ''. Allowed: 480p, 720p.''), [])
      else
        (let body = \<lparr>ark_model = p_model payload, ark_text = p_prompt payload,
                      ark_image_url =
                        (if truthy (p_image_url payload) then p_image_url payload else None),
                      ark_duration =
                        (case p_duration payload of
                           Some n \<Rightarrow> if n \<noteq> 0 then n else 5 | None \<Rightarrow> 5),
                      ark_resolution = requestedRes, ark_audio = False\<rparr>
         in case provider body of
              ArkThrows e \<Rightarrow> (Throws e, [body])
            | ArkHttpError code errText \<Rightarrow>
                (Throws (''Upstream Error ('' @ decimal code @ ''): '' @ errText), [body])
            | ArkJson i resultId \<Rightarrow>
                (let tid = (if truthy i then i else resultId) in
                 if \<not> truthy tid then (Throws ''No Task ID returned from upstream'', [body])
                 else (Returns (the tid), [body]))))"

section \<open>The network between the endpoints and the ledger\<close>

text \<open>
  One \<open>fetch\<close> of the Apps Script URL: the request is delivered and answered; or it fails
  without reaching the script; or the script runs it but the caller sees an error (the
  10 s abort, or an answer that is not \<open>ok\<close>). The string is the error's message.
\<close>

datatype link = Delivered | Failed string | ReplyLost string

text \<open>
  The endpoints post only \<open>updateVideoStatus\<close> bodies through their retry helper, so an
  attempt that reaches the script runs that branch of \<open>doPost\<close>.
\<close>

definition gasAttempt ::
  "link \<Rightarrow> string \<Rightarrow> post_data \<Rightarrow> sheet \<Rightarrow> json_response outcome \<times> sheet" where
  "gasAttempt l nowIso payload sh =
     (case l of
        Delivered \<Rightarrow>
          (case updateVideoStatus nowIso payload sh of (resp, sh') \<Rightarrow> (Returns resp, sh'))
      | Failed e \<Rightarrow> (Throws e, sh)
      | ReplyLost e \<Rightarrow> (Throws e, snd (updateVideoStatus nowIso payload sh)))"

text \<open>
  \<open>fetchGasWithRetry\<close>, the loop \<open>for (let i = 0; i < retries; i++)\<close>: the answer of the
  first attempt that succeeds is returned, the error of the last attempt is thrown. A loop
  that makes no attempt returns \<open>undefined\<close>, here \<open>Returns None\<close>. The list collects
  the messages of the failed attempts, which the helper of generate.ts writes to the
  console with \<open>console.warn\<close> and the helper of the tick drops.
\<close>

function fetchGasLoop ::
  "(nat \<Rightarrow> link) \<Rightarrow> string \<Rightarrow> post_data \<Rightarrow> nat \<Rightarrow> nat \<Rightarrow> sheet \<Rightarrow>
   json_response option outcome \<times> sheet \<times> string list" where
  "fetchGasLoop net nowIso payload retries i sh =
     (if i < retries then
        (case gasAttempt (net i) nowIso payload sh of
           (Returns resp, sh') \<Rightarrow> (Returns (Some resp), sh', [])
         | (Throws e, sh') \<Rightarrow>
             if i = retries - 1 then (Throws e, sh', [e])
             else (case fetchGasLoop net nowIso payload retries (Suc i) sh' of
                     (res, sh'', es) \<Rightarrow> (res, sh'', e # es)))
      else (Returns None, sh, []))"
  by pat_completeness auto
termination
  by (relation "measure (\<lambda>(net, nowIso, payload, retries, i, sh). retries - i)") auto

declare fetchGasLoop.simps [simp del]

definition fetchGasWithRetry ::
  "(nat \<Rightarrow> link) \<Rightarrow> string \<Rightarrow> post_data \<Rightarrow> nat \<Rightarrow> sheet \<Rightarrow>
   json_response option outcome \<times> sheet \<times> string list" where
  "fetchGasWithRetry net nowIso payload retries sh = fetchGasLoop net nowIso payload retries 0 sh"

section \<open>The submission endpoint api/video/generate.ts\<close>

definition VIDEO_PREFIX :: string where
  "VIDEO_PREFIX = ''seedance-''"

definition isValidVideoModel :: "string \<Rightarrow> bool" where
  "isValidVideoModel m = startsWith m VIDEO_PREFIX"

definition quoted :: "string \<Rightarrow> string" where
  "quoted s = CHR 0x27 # s @ [CHR 0x27]"

text \<open>\<open>assertVideoModel\<close>: the message of the error it throws, if it throws.\<close>

definition assertVideoModel :: "string \<Rightarrow> string option" where
  "assertVideoModel m =
     (if \<not> isValidVideoModel m
      then Some (''Invalid Video Model: '' @ m @ ''. Must start with '' @ quoted VIDEO_PREFIX @ ''.'')
      else None)"

text \<open>\<open>req.body\<close> of the submission.\<close>

record gen_body =
  g_prompt :: "string option"
  g_imageBase64 :: "string option"
  g_driveFileId :: "string option"
  g_sessionFolderId :: "string option"
  g_model :: "string option"
  g_resolution :: "string option"

text \<open>
  The environment of one submission: the variables \<open>VIDEO_MODEL\<close> and
  \<open>APPS_SCRIPT_BASE_URL\<close>, the provider, the network to the ledger for each attempt of
  the retry helper, and the time the script stamps.
\<close>

record gen_env =
  env_VIDEO_MODEL :: "string option"
  env_APPS_SCRIPT_BASE_URL :: "string option"
  provider :: "ark_request \<Rightarrow> ark_reply"
  gasNet :: "nat \<Rightarrow> link"
  gasNow :: string

datatype gen_json =
    GenEnd
  | GenError string
  | GenStarted string string string string

text \<open>
  What a submission leaves behind: the HTTP status and body, the lines written with
  \<open>console.warn\<close> and \<open>console.error\<close>, the requests posted to the provider, and the
  sheet.
\<close>

record gen_out =
  httpStatus :: nat
  httpBody :: gen_json
  consoleLog :: "string list"
  arkIssued :: "ark_request list"
  sheetAfter :: sheet

text \<open>The strict resolution validation: the resolution used and the warning, if any.\<close>

definition validateResolution :: "string option \<Rightarrow> string \<times> string list" where
  "validateResolution r =
     (let videoRes = orElse r ''480p'' in
      if videoRes \<noteq> ''480p'' \<and> videoRes \<noteq> ''720p''
      then (''480p'',
            [''[API Video] Invalid resolution '' @ videoRes @ '', defaulting to 480p''])
      else (videoRes, []))"

definition selectedModel :: "gen_env \<Rightarrow> gen_body \<Rightarrow> string" where
  "selectedModel env body =
     (if truthy (g_model body) then the (g_model body)
      else orElse (env_VIDEO_MODEL env) ''seedance-1-0-pro-fast-251015'')"

definition inputImageUrl :: "gen_body \<Rightarrow> string \<Rightarrow> string" where
  "inputImageUrl body videoRes =
     (if truthy (g_driveFileId body)
      then (let sizeParam = (if videoRes = ''720p'' then ''w720'' else ''w480'') in
            ''https://drive.google.com/thumbnail?id='' @ the (g_driveFileId body) @ ''&sz='' @ sizeParam)
      else if truthy (g_imageBase64 body) then the (g_imageBase64 body)
      else [])"

definition forcedPrompt :: "string option \<Rightarrow> string \<Rightarrow> string" where
  "forcedPrompt p videoRes =
     orElse p ''Cinematic movement'' @ '' --rs '' @ videoRes @ '' --dur '' @ decimal 5"

text \<open>The argument that the handler gives to \<open>startArkVideoTask\<close>.\<close>

definition startPayload :: "gen_env \<Rightarrow> gen_body \<Rightarrow> ark_payload" where
  "startPayload env body =
     (let videoRes = fst (validateResolution (g_resolution body)) in
      \<lparr>p_model = selectedModel env body,
       p_prompt = forcedPrompt (g_prompt body) videoRes,
       p_image_url = Some (inputImageUrl body videoRes),
       p_duration = Some 5,
       p_resolution = Some videoRes\<rparr>)"

text \<open>
  The lines that the retry helper of this file writes with \<open>console.warn\<close>, one for
  each failed attempt: \<open>[API Video] GAS Update Attempt ${i + 1} failed: <message>\<close>.
\<close>

definition attemptWarnings :: "string list \<Rightarrow> string list" where
  "attemptWarnings es =
     map (\<lambda>(k, m). ''[API Video] GAS Update Attempt '' @ decimal k @ '' failed: '' @ m)
       (zip [1..<Suc (length es)] es)"

text \<open>
  Step 4 of the handler: the start report to the ledger, sent with three attempts when the
  script URL is configured and the submission names a Drive file. The result is the lines
  written to the console and the sheet; an exception of the retry helper is caught.
\<close>

definition registerTask ::
  "gen_env \<Rightarrow> gen_body \<Rightarrow> string \<Rightarrow> sheet \<Rightarrow> string list \<times> sheet" where
  "registerTask env body tid sh =
     (if truthy (env_APPS_SCRIPT_BASE_URL env) \<and> truthy (g_driveFileId body)
      then
        (case fetchGasWithRetry (gasNet env) (gasNow env)
                (startedPayload (the (g_driveFileId body)) tid) 3 sh of
           (Throws e, sh', es) \<Rightarrow>
             (attemptWarnings es
                @ [''[API Video] CRITICAL: Failed to update GAS after retries.''],
              sh')
         | (Returns r, sh', es) \<Rightarrow>
             (attemptWarnings es, sh'))
      else ([], sh))"

definition generateHandler :: "gen_env \<Rightarrow> string \<Rightarrow> gen_body \<Rightarrow> sheet \<Rightarrow> gen_out" where
  "generateHandler env method body sh =
     (if method = ''OPTIONS''
      then \<lparr>httpStatus = 200, httpBody = GenEnd, consoleLog = [], arkIssued = [], sheetAfter = sh\<rparr>
      else if method \<noteq> ''POST''
      then \<lparr>httpStatus = 405, httpBody = GenError ''Method not allowed'', consoleLog = [],
            arkIssued = [], sheetAfter = sh\<rparr>
      else
        (case assertVideoModel (selectedModel env body) of
           Some msg \<Rightarrow>
             \<lparr>httpStatus = 400, httpBody = GenError msg, consoleLog = [], arkIssued = [],
              sheetAfter = sh\<rparr>
         | None \<Rightarrow>
             (let (videoRes, warned) = validateResolution (g_resolution body) in
              if inputImageUrl body videoRes = []
              then \<lparr>httpStatus = 400,
                    httpBody = GenError ''No input image provided (driveFileId required)'',
                    consoleLog = warned, arkIssued = [], sheetAfter = sh\<rparr>
              else
                (case startArkVideoTask (provider env) (startPayload env body) of
                   (Throws msg, issued) \<Rightarrow>
                     \<lparr>httpStatus = (if includesStr msg ''Upstream'' then 502 else 500),
                      httpBody = GenError msg,
                      consoleLog = warned @ [''[API Video] Error: '' @ msg],
                      arkIssued = issued, sheetAfter = sh\<rparr>
                 | (Returns tid, issued) \<Rightarrow>
                     (let (written, sh') = registerTask env body tid sh
                      in \<lparr>httpStatus = 200,
                          httpBody = GenStarted tid ''processing'' ''Video generation started''
                                       videoRes,
                          consoleLog = warned @ written, arkIssued = issued,
                          sheetAfter = sh'\<rparr>)))))"

section \<open>The reconciler tick\<close>

text \<open>
  The read path of the ledger, \<open>doGet\<close> with \<open>action=gallery\<close> and no \<open>since\<close>: the
  loop runs from the last row of the sheet to the first, skips rows without an id and
  keeps the first 50.
\<close>

definition doGetGallery :: "sheet \<Rightarrow> row list" where
  "doGetGallery sh = take 50 (filter (\<lambda>r. rid r \<noteq> []) (rev sh))"

text \<open>
  The answer of the provider's task endpoint. Of the JSON object \<open>sData\<close> the handler
  reads \<open>Result\<close>, \<open>data\<close> or the object itself, and of that the \<open>status\<close> and three
  places of the video URL.
\<close>

record result_obj =
  r_status :: "string option"
  r_content_video_url :: "string option"
  r_output_video_url :: "string option"
  r_video_url :: "string option"

record status_json =
  j_Result :: "result_obj option"
  j_data :: "result_obj option"
  j_self :: result_obj

text \<open>
  One poll: the \<open>fetch\<close> (or the parsing of its answer) throws, the answer is not
  \<open>ok\<close>, or it is a JSON object.
\<close>

datatype poll_reply = PollThrows string | PollNotOk | PollJson status_json

definition toLowerCase :: "string \<Rightarrow> string" where
  "toLowerCase s =
     map (\<lambda>c. case map_of (zip ''ABCDEFGHIJKLMNOPQRSTUVWXYZ'' ''abcdefghijklmnopqrstuvwxyz'') c of
                 Some l \<Rightarrow> l | None \<Rightarrow> c) s"

text \<open>
  The environment of one tick: the provider's answers to a poll (by task id) and to a
  start request, the variable \<open>SEEDANCE_MODEL_ID\<close> with its default, the network to the
  ledger for each request body and attempt, and the time the script stamps.
\<close>

record tick_env =
  pollTask :: "string \<Rightarrow> poll_reply"
  startTask :: "ark_request \<Rightarrow> ark_reply"
  defaultModelId :: string
  tickNet :: "post_data \<Rightarrow> nat \<Rightarrow> link"
  tickNow :: string

record report =
  processed :: nat
  started :: nat
  rescued :: nat
  errors :: "string list"

text \<open>
  What a tick has done so far: its report, the sheet, the \<open>finalizeVideoUpload\<close>
  requests it fired, the task ids it polled, the start requests it posted (with the id of
  the row), and the lines of \<open>console.warn\<close> and \<open>console.error\<close>.
\<close>

record tick_state =
  t_report :: report
  t_sheet :: sheet
  t_finalize :: "post_data list"
  t_polled :: "string list"
  t_startPosts :: "(string \<times> ark_request) list"
  t_console :: "string list"

definition resultObj :: "status_json \<Rightarrow> result_obj" where
  "resultObj sData =
     (case j_Result sData of
        Some r \<Rightarrow> r
      | None \<Rightarrow> (case j_data sData of Some d \<Rightarrow> d | None \<Rightarrow> j_self sData))"

definition videoUrlOf :: "result_obj \<Rightarrow> string option" where
  "videoUrlOf r =
     (if truthy (r_content_video_url r) then r_content_video_url r
      else if truthy (r_output_video_url r) then r_output_video_url r
      else r_video_url r)"

text \<open>The tick's helper makes two attempts.\<close>

definition tickGas ::
  "tick_env \<Rightarrow> post_data \<Rightarrow> sheet \<Rightarrow> json_response option outcome \<times> sheet \<times> string list" where
  "tickGas env payload sh = fetchGasWithRetry (tickNet env payload) (tickNow env) payload 2 sh"

text \<open>
  The lock and what follows it, lines 68 to 103: the \<open>try\<close> block posts the lock
  request; when the answer has \<open>ok\<close> the finalizer is triggered and \<open>processed\<close> is
  counted, else a warning is written; an exception of the helper is caught and written to
  the console.
\<close>

definition lockAndTrigger :: "tick_env \<Rightarrow> row \<Rightarrow> string \<Rightarrow> tick_state \<Rightarrow> tick_state" where
  "lockAndTrigger env task url st =
     (case tickGas env (lockPayload task url) (t_sheet st) of
        (Returns (Some lockJson), sh', es) \<Rightarrow>
          if ok lockJson
          then st\<lparr>t_sheet := sh',
                  t_finalize := t_finalize st @ [finalizePayload task url],
                  t_report := (t_report st)\<lparr>processed := Suc (processed (t_report st))\<rparr>\<rparr>
          else st\<lparr>t_sheet := sh',
                  t_console := t_console st @
                    [''[TICK] Race condition detected for '' @ rid task @ ''. Skipping duplicate upload.'']\<rparr>
      | (Returns None, sh', es) \<Rightarrow>
          st\<lparr>t_sheet := sh',
             t_console := t_console st @ [''[TICK] Lock failed for '' @ rid task @ '':'']\<rparr>
      | (Throws e, sh', es) \<Rightarrow>
          st\<lparr>t_sheet := sh',
             t_console := t_console st @ [''[TICK] Lock failed for '' @ rid task @ '': '' @ e]\<rparr>)"

text \<open>
  The failure report, line 106: an exception of the helper is caught by \<open>.catch\<close> and
  written to the console.
\<close>

definition reportFailed :: "tick_env \<Rightarrow> row \<Rightarrow> tick_state \<Rightarrow> tick_state" where
  "reportFailed env task st =
     (case tickGas env (failedPayload task) (t_sheet st) of
        (Returns r, sh', es) \<Rightarrow> st\<lparr>t_sheet := sh'\<rparr>
      | (Throws e, sh', es) \<Rightarrow>
          st\<lparr>t_sheet := sh', t_console := t_console st @ [''Fail update error '' @ e]\<rparr>)"

text \<open>
  The body of the loop over the rows in \<open>processing\<close>. The first component is the
  exception that leaves the loop, if there is one: the poll is not inside a \<open>try\<close>.
\<close>

definition checkTask :: "tick_env \<Rightarrow> row \<Rightarrow> tick_state \<Rightarrow> string option \<times> tick_state" where
  "checkTask env task st =
     (if videoTaskId task = [] then (None, st)
      else
        (let st1 = st\<lparr>t_polled := t_polled st @ [videoTaskId task]\<rparr> in
         case pollTask env (videoTaskId task) of
           PollThrows e \<Rightarrow> (Some e, st1)
         | PollNotOk \<Rightarrow> (None, st1)
         | PollJson sData \<Rightarrow>
             (let r = resultObj sData;
                  s = toLowerCase (orElse (r_status r) ''processing'')
              in if s = ''succeeded'' \<or> s = ''success''
                 then (let videoUrl = videoUrlOf r in
                       if truthy videoUrl
                       then (None, lockAndTrigger env task (the videoUrl) st1)
                       else (None, st1))
                 else if s = ''failed'' \<or> s = ''error''
                 then (None, reportFailed env task st1)
                 else (None, st1))))"

fun processLoop :: "tick_env \<Rightarrow> row list \<Rightarrow> tick_state \<Rightarrow> string option \<times> tick_state" where
  "processLoop env [] st = (None, st)"
| "processLoop env (task # tasks) st =
     (case checkTask env task st of
        (Some e, st') \<Rightarrow> (Some e, st')
      | (None, st') \<Rightarrow> processLoop env tasks st')"

text \<open>The start request that the tick builds for a queued row, lines 117 to 138.\<close>

definition tickStartRequest :: "tick_env \<Rightarrow> row \<Rightarrow> ark_request" where
  "tickStartRequest env task =
     (let finalRes0 = (if videoResolution task \<noteq> [] then videoResolution task else ''480p'');
          finalRes = (if finalRes0 \<noteq> ''720p'' \<and> finalRes0 \<noteq> ''480p'' then ''480p'' else finalRes0);
          sizeParam = (if finalRes = ''720p'' then ''w720'' else ''w480'');
          driveInputUrl = ''https://drive.google.com/thumbnail?id='' @ rid task @ ''&sz='' @ sizeParam;
          basePrompt = (if videoPrompt task \<noteq> [] then videoPrompt task else ''Cinematic movement'');
          forced = basePrompt @ '' --rs '' @ finalRes @ '' --dur '' @ decimal 5
      in \<lparr>ark_model = (if videoModel task \<noteq> [] then videoModel task else defaultModelId env),
          ark_text = forced, ark_image_url = Some driveInputUrl, ark_duration = 5,
          ark_resolution = finalRes, ark_audio = False\<rparr>)"

text \<open>
  The body of the loop over the queued rows that got a slot. The \<open>fetch\<close> of the start
  request is not inside a \<open>try\<close>; the start report to the ledger is.
\<close>

definition startQueued :: "tick_env \<Rightarrow> row \<Rightarrow> tick_state \<Rightarrow> string option \<times> tick_state" where
  "startQueued env task st =
     (let payload = tickStartRequest env task;
          st1 = st\<lparr>t_startPosts := t_startPosts st @ [(rid task, payload)]\<rparr>
      in case startTask env payload of
           ArkThrows e \<Rightarrow> (Some e, st1)
         | ArkHttpError code errText \<Rightarrow> (None, st1)
         | ArkJson i resultId \<Rightarrow>
             (let tid = (if truthy i then i else resultId) in
              if truthy tid
              then (case tickGas env (startedPayload (rid task) (the tid)) (t_sheet st1) of
                      (Returns r, sh', es) \<Rightarrow>
                        (None, st1\<lparr>t_sheet := sh',
                                   t_report := (t_report st1)\<lparr>started := Suc (started (t_report st1))\<rparr>\<rparr>)
                    | (Throws e, sh', es) \<Rightarrow>
                        (None, st1\<lparr>t_sheet := sh',
                                   t_console := t_console st1 @
                                     [''[TICK] Failed to update start status for '' @ rid task]\<rparr>))
              else (None, st1)))"

fun startLoop :: "tick_env \<Rightarrow> row list \<Rightarrow> tick_state \<Rightarrow> string option \<times> tick_state" where
  "startLoop env [] st = (None, st)"
| "startLoop env (task # tasks) st =
     (case startQueued env task st of
        (Some e, st') \<Rightarrow> (Some e, st')
      | (None, st') \<Rightarrow> startLoop env tasks st')"

definition MAX_CONCURRENT :: int where
  "MAX_CONCURRENT = 3"

datatype tick_response = Tick405 | Tick500 string | Tick200 report nat

definition newTick :: "sheet \<Rightarrow> tick_state" where
  "newTick sh =
     \<lparr>t_report = \<lparr>processed = 0, started = 0, rescued = 0, errors = []\<rparr>, t_sheet = sh,
      t_finalize = [], t_polled = [], t_startPosts = [], t_console = []\<rparr>"

text \<open>
  The handler from the point where \<open>items\<close> has been read, lines 48 to 169. An exception
  that leaves a loop reaches the outer \<open>catch\<close>, which answers 500 with its message.
\<close>

definition tickBody :: "tick_env \<Rightarrow> row list \<Rightarrow> sheet \<Rightarrow> tick_response \<times> tick_state" where
  "tickBody env items sh =
     (let processingTasks = filter (\<lambda>i. videoStatus i = ''processing'') items;
          queuedTasks = filter (\<lambda>i. videoStatus i = ''queued'') items;
          activeCount = length processingTasks + length queuedTasks
      in case processLoop env processingTasks (newTick sh) of
           (Some e, st1) \<Rightarrow> (Tick500 e, st1)
         | (None, st1) \<Rightarrow>
             (let availableSlots = MAX_CONCURRENT - int (length processingTasks) in
              case (if availableSlots > 0 \<and> length queuedTasks > 0
                    then startLoop env (take (nat availableSlots) queuedTasks) st1
                    else (None, st1)) of
                (Some e, st2) \<Rightarrow> (Tick500 e, st2)
              | (None, st2) \<Rightarrow> (Tick200 (t_report st2) activeCount, st2)))"

text \<open>The answer to the tick's \<open>fetch\<close> of the gallery.\<close>

datatype gallery_reply = GalleryThrows string | GalleryNotOk nat | GalleryJson "row list option"

definition tickHandler ::
  "tick_env \<Rightarrow> string \<Rightarrow> bool \<Rightarrow> gallery_reply \<Rightarrow> sheet \<Rightarrow> tick_response \<times> tick_state" where
  "tickHandler env method configured galleryReply sh =
     (if method \<noteq> ''GET'' then (Tick405, newTick sh)
      else if \<not> configured then (Tick500 ''Config missing'', newTick sh)
      else
        (case galleryReply of
           GalleryThrows e \<Rightarrow> (Tick500 e, newTick sh)
         | GalleryNotOk code \<Rightarrow>
             (Tick500 (''Failed to fetch Gallery: '' @ decimal code), newTick sh)
         | GalleryJson items \<Rightarrow>
             tickBody env (case items of Some xs \<Rightarrow> xs | None \<Rightarrow> []) sh))"

text \<open>
  A tick against the ledger: the request is a \<open>GET\<close>, the three variables are set, and
  the tick's \<open>fetch\<close> of \<open>action=gallery\<close> is answered by \<open>doGet\<close> from the sheet.
\<close>

definition tickOnLedger :: "tick_env \<Rightarrow> sheet \<Rightarrow> tick_response \<times> tick_state" where
  "tickOnLedger env sh = tickHandler env ''GET'' True (GalleryJson (Some (doGetGallery sh))) sh"

text \<open>
  The rows that a tick starts according to the specification's admission rule: with \<open>p\<close>
  rows of the ledger in \<open>processing\<close>, the first \<open>min (max (3 - p) 0) q\<close> of its \<open>q\<close>
  rows in \<open>queued\<close>, in ledger row order. This definition follows the specification, not
  the code.
\<close>

definition claimedStarts :: "sheet \<Rightarrow> string list" where
  "claimedStarts sh =
     (let p = length (filter (\<lambda>r. videoStatus r = ''processing'') sh);
          queuedRows = filter (\<lambda>r. videoStatus r = ''queued'') sh
      in map rid (take (nat (min (max (3 - int p) 0) (int (length queuedRows)))) queuedRows))"

section \<open>Reachable ledger states\<close>

text \<open>Drive never hands out an empty file id.\<close>

definition driveIds :: "drive_env \<Rightarrow> bool" where
  "driveIds env = (\<forall>folder file. createFile env folder = Returns file \<longrightarrow> file \<noteq> [])"

text \<open>
  The states that the subsystem's own actions reach from the empty gallery: uploads,
  \<open>queueVideo\<close>, the three \<open>updateVideoStatus\<close> requests above (a start report carries
  a task id that passed \<open>if (taskId)\<close>), and \<open>finalizeVideoUpload\<close>.
\<close>

inductive reachable :: "world \<Rightarrow> bool" where
  start: "reachable emptyWorld"
| upload: "reachable w \<Longrightarrow> driveIds env \<Longrightarrow>
     action d = ''uploadGenerated'' \<or> action d = ''uploadGeneratedVideo'' \<Longrightarrow>
     reachable (snd (uploadGenerated env nowIso d w))"
| queue: "reachable w \<Longrightarrow>
     reachable (w\<lparr>gallery := snd (queueVideo nowIso d (gallery w))\<rparr>)"
| started: "reachable w \<Longrightarrow> tid \<noteq> [] \<Longrightarrow>
     reachable (w\<lparr>gallery := snd (updateVideoStatus nowIso (startedPayload pid tid) (gallery w))\<rparr>)"
| locked: "reachable w \<Longrightarrow>
     reachable (w\<lparr>gallery := snd (updateVideoStatus nowIso (lockPayload task url) (gallery w))\<rparr>)"
| failed: "reachable w \<Longrightarrow>
     reachable (w\<lparr>gallery := snd (updateVideoStatus nowIso (failedPayload task) (gallery w))\<rparr>)"
| finalize: "reachable w \<Longrightarrow> driveIds env \<Longrightarrow>
     reachable (snd (finalizeVideoUpload env nowIso d w))"

text \<open>
  The invariant as the data model words it: \<open>videoTaskId\<close> is set if and only if the
  status is \<open>processing\<close>, \<open>uploading\<close> or \<open>done\<close>, and \<open>videoFileId\<close> is set if and
  only if the status is \<open>done\<close>.
\<close>

definition claimedRowInvariant :: "row \<Rightarrow> bool" where
  "claimedRowInvariant r =
     ((videoTaskId r \<noteq> [] \<longleftrightarrow> videoStatus r \<in> {''processing'', ''uploading'', ''done''})
      \<and> (videoFileId r \<noteq> [] \<longleftrightarrow> videoStatus r = ''done''))"

text \<open>The two directions of it that the actions keep.\<close>

definition rowInvariant :: "row \<Rightarrow> bool" where
  "rowInvariant r =
     ((videoStatus r = ''processing'' \<or> videoStatus r = ''uploading'' \<longrightarrow> videoTaskId r \<noteq> [])
      \<and> (videoStatus r = ''done'' \<longrightarrow> videoFileId r \<noteq> []))"

section \<open>Requests and ticks one after the other\<close>

text \<open>
  Several \<open>updateVideoStatus\<close> requests run one after the other, each under the lock,
  with the time of each.
\<close>

fun runUpdates :: "(string \<times> post_data) list \<Rightarrow> sheet \<Rightarrow> json_response list \<times> sheet" where
  "runUpdates [] sh = ([], sh)"
| "runUpdates ((nowIso, d) # ds) sh =
     (case updateVideoStatus nowIso d sh of
        (r, sh') \<Rightarrow> (case runUpdates ds sh' of (rs, sh'') \<Rightarrow> (r # rs, sh'')))"

text \<open>A request that asks for the transition from \<open>processing\<close> to \<open>uploading\<close> of row \<open>pid\<close>.\<close>

definition isLock :: "string \<Rightarrow> post_data \<Rightarrow> bool" where
  "isLock pid d = (photoId d = Some pid \<and> requireStatus d = Some ''processing''
     \<and> status d = Some ''uploading'')"

text \<open>The row that a request for \<open>pid\<close> finds is in \<open>processing\<close>.\<close>

definition processingAt :: "string \<Rightarrow> sheet \<Rightarrow> bool" where
  "processingAt pid sh =
     (case findRow (Some pid) sh of
        Some i \<Rightarrow> videoStatus (sh ! i) = ''processing'' | None \<Rightarrow> False)"

text \<open>
  The same row handled by several ticks one after the other. Each tick has its own
  environment and its own snapshot of the row; the sheet is shared, and the triggers of
  all of them are collected in one list.
\<close>

fun runChecks :: "(tick_env \<times> row) list \<Rightarrow> tick_state \<Rightarrow> tick_state" where
  "runChecks [] st = st"
| "runChecks ((env, task) # rest) st = runChecks rest (snd (checkTask env task st))"

definition triggersFor :: "string \<Rightarrow> tick_state \<Rightarrow> nat" where
  "triggersFor pid st = length (filter (\<lambda>f. photoId f = Some pid) (t_finalize st))"

text \<open>
  What one handling of row \<open>pid\<close> may do to the shared state: either it adds no trigger
  and does not bring the row back to \<open>processing\<close>, or it adds one trigger, having
  found the row in \<open>processing\<close> and moved it on.
\<close>

definition handled :: "string \<Rightarrow> tick_state \<Rightarrow> tick_state \<Rightarrow> bool" where
  "handled pid st st' =
     ((triggersFor pid st' = triggersFor pid st
        \<and> (processingAt pid (t_sheet st') \<longrightarrow> processingAt pid (t_sheet st)))
      \<or> (triggersFor pid st' = Suc (triggersFor pid st)
          \<and> processingAt pid (t_sheet st) \<and> \<not> processingAt pid (t_sheet st')))"

section \<open>Concrete rows, requests and environments\<close>

text \<open>A submission with an unsupported resolution, while the ledger cannot be reached.\<close>

definition ledgerDown :: gen_env where
  "ledgerDown = \<lparr>env_VIDEO_MODEL = None, env_APPS_SCRIPT_BASE_URL = Some ''https://gas'',
     provider = (\<lambda>q. ArkJson (Some ''task-1'') None),
     gasNet = (\<lambda>i. Failed ''GAS Status: 500''), gasNow = ''2026''\<rparr>"

definition submission :: gen_body where
  "submission = \<lparr>g_prompt = None, g_imageBase64 = None, g_driveFileId = Some ''file1'',
     g_sessionFolderId = None, g_model = None, g_resolution = Some ''1080p''\<rparr>"


definition videoUpload :: post_data where
  "videoUpload = emptyData\<lparr>action := ''uploadGeneratedVideo'',
     image := Some ''data:video/mp4;base64,AAAA''\<rparr>"

definition photoUpload :: post_data where
  "photoUpload = emptyData\<lparr>action := ''uploadGenerated'',
     image := Some ''data:image/jpeg;base64,AAAA''\<rparr>"

definition photoRow :: row where
  "photoRow = blankRow\<lparr>rid := ''file1'', createdAt := ''2026'', updatedAt := ''2026'',
     rtype := ''image'', videoStatus := ''idle''\<rparr>"

definition videoRow :: row where
  "videoRow = blankRow\<lparr>rid := ''file1'', createdAt := ''2026'', updatedAt := ''2026'',
     rtype := ''video'', videoStatus := ''done'', videoFileId := ''file1''\<rparr>"

definition startedRow :: row where
  "startedRow = photoRow\<lparr>videoStatus := ''processing'', videoTaskId := ''t1'',
     updatedAt := ''2027''\<rparr>"

definition failedRow :: row where
  "failedRow = startedRow\<lparr>videoStatus := ''failed'', updatedAt := ''2028''\<rparr>"

definition requeuedRow :: row where
  "requeuedRow = videoRow\<lparr>videoStatus := ''queued'', updatedAt := ''2027''\<rparr>"

definition videoUploaded :: world where
  "videoUploaded = \<lparr>gallery = [videoRow], driveFiles = [(''file1'', ''root'')],
     downloads = []\<rparr>"

definition photoUploaded :: world where
  "photoUploaded = \<lparr>gallery = [photoRow], driveFiles = [(''file1'', ''root'')],
     downloads = []\<rparr>"

definition uploadingRow :: row where
  "uploadingRow = blankRow\<lparr>rid := ''p1'', videoStatus := ''uploading'', videoTaskId := ''t1'',
     providerUrl := ''http://v''\<rparr>"

text \<open>A Drive in which every call succeeds and no default folder is configured.\<close>

definition workingDrive :: drive_env where
  "workingDrive = \<lparr>fetchVideo = (\<lambda>u. Returns 200), getBlob = Returns (),
     newBlob = (\<lambda>i. Returns ()),
     getFolderById = (\<lambda>f. case f of Some x \<Rightarrow> Returns x | None \<Rightarrow> Throws ''Invalid argument: id''),
     folderIdProperty = None, getRootFolder = Returns ''root'',
     createFile = (\<lambda>folder. Returns ''file1''), setSharing = (\<lambda>f. Returns ())\<rparr>"


definition finishedRow :: row where
  "finishedRow = blankRow\<lparr>rid := ''p1'', videoStatus := ''done'', videoTaskId := ''t1'',
     videoFileId := ''f1''\<rparr>"

definition runningRow :: row where
  "runningRow = blankRow\<lparr>rid := ''p1'', videoStatus := ''processing'', videoTaskId := ''t1''\<rparr>"

definition requeue :: post_data where
  "requeue = emptyData\<lparr>action := ''queueVideo'', photoId := Some ''p1'',
     prompt := Some ''zoom in''\<rparr>"

text \<open>A tick for which every outside call succeeds, and ten queued rows.\<close>

definition reliableTick :: tick_env where
  "reliableTick = \<lparr>pollTask = (\<lambda>t. PollNotOk), startTask = (\<lambda>q. ArkJson (Some ''task-1'') None),
     defaultModelId = ''seedance-1-0-pro-fast-251015'', tickNet = (\<lambda>p i. Delivered),
     tickNow = ''2026''\<rparr>"

definition queuedRow :: "string \<Rightarrow> row" where
  "queuedRow i = blankRow\<lparr>rid := i, videoStatus := ''queued''\<rparr>"

definition tenQueued :: "row list" where
  "tenQueued = map queuedRow [''q0'', ''q1'', ''q2'', ''q3'', ''q4'', ''q5'', ''q6'', ''q7'',
     ''q8'', ''q9'']"

text \<open>A tick in which the \<open>fetch\<close> of every start request throws.\<close>

definition startFails :: tick_env where
  "startFails = reliableTick\<lparr>startTask := (\<lambda>q. ArkThrows ''fetch failed'')\<rparr>"

text \<open>Two rows in \<open>processing\<close>, whose provider tasks have succeeded.\<close>

definition rowA :: row where
  "rowA = blankRow\<lparr>rid := ''a'', videoStatus := ''processing'', videoTaskId := ''tA''\<rparr>"

definition rowB :: row where
  "rowB = blankRow\<lparr>rid := ''b'', videoStatus := ''processing'', videoTaskId := ''tB''\<rparr>"

definition succeededJson :: status_json where
  "succeededJson = \<lparr>j_Result = None, j_data = None,
     j_self = \<lparr>r_status = Some ''Succeeded'', r_content_video_url = Some ''http://v'',
               r_output_video_url = None, r_video_url = None\<rparr>\<rparr>"

text \<open>A tick in which the poll of task \<open>tA\<close> throws.\<close>

definition pollFails :: tick_env where
  "pollFails = reliableTick\<lparr>pollTask :=
     (\<lambda>t. if t = ''tA'' then PollThrows ''fetch failed'' else PollJson succeededJson)\<rparr>"

text \<open>A tick in which the ledger cannot be reached for row \<open>a\<close>.\<close>

definition lockFails :: tick_env where
  "lockFails = reliableTick\<lparr>pollTask := (\<lambda>t. PollJson succeededJson),
     tickNet := (\<lambda>p i. if photoId p = Some ''a'' then Failed ''Status: 500'' else Delivered)\<rparr>"

text \<open>Five ticks that all saw row \<open>p1\<close> in \<open>processing\<close> and its task succeeded.\<close>

definition eagerTick :: tick_env where
  "eagerTick = reliableTick\<lparr>pollTask := (\<lambda>t. PollJson succeededJson)\<rparr>"

definition fiveTicks :: "(tick_env \<times> row) list" where
  "fiveTicks = replicate 5 (eagerTick, runningRow)"

definition fiveLocks :: "(string \<times> post_data) list" where
  "fiveLocks = replicate 5 (''2026'', lockPayload runningRow ''http://v'')"

section \<open>Facts about the row search\<close>

lemma findRow_bound: "findRow pid sh = Some i \<Longrightarrow> i < length sh"
  by (induction sh arbitrary: i) (auto split: if_splits)

lemma findRow_hit: "findRow pid sh = Some i \<Longrightarrow> Some (rid (sh ! i)) = pid"
  by (induction sh arbitrary: i) (auto split: if_splits)

lemma findRow_first: "findRow pid sh = Some i \<Longrightarrow> j < i \<Longrightarrow> Some (rid (sh ! j)) \<noteq> pid"
proof (induction sh arbitrary: i j)
  case Nil
  then show ?case by simp
next
  case (Cons r rs)
  show ?case
  proof (cases "Some (rid r) = pid")
    case True
    with Cons.prems show ?thesis by simp
  next
    case False
    with Cons.prems obtain k where k: "findRow pid rs = Some k" "i = Suc k"
      by auto
    show ?thesis
    proof (cases j)
      case 0
      with False show ?thesis by simp
    next
      case (Suc j')
      with Cons.prems k have "j' < k" by simp
      with Cons.IH [OF k(1)] Suc show ?thesis by simp
    qed
  qed
qed

lemma findRow_update:
  "findRow pid sh = Some i \<Longrightarrow> rid r' = rid (sh ! i) \<Longrightarrow> findRow pid (sh[i := r']) = Some i"
  by (induction sh arbitrary: i) (auto split: if_splits)

lemma rid_queueWrites [simp]: "rid (queueWrites nowIso d r) = rid r"
  by (simp add: queueWrites_def Let_def)

lemma rid_statusWrites [simp]: "rid (statusWrites nowIso d r) = rid r"
  by (simp add: statusWrites_def Let_def)

section \<open>The compare-and-swap of updateVideoStatus\<close>

text \<open>
  C2. A request that supplies \<open>requireStatus\<close> (the handler's own test
  \<open>if (data.requireStatus)\<close>) and whose target row, the first row with the requested id,
  has another \<open>videoStatus\<close> is answered \<open>{ok:false, error:'Status mismatch', current}\<close>
  and the sheet is returned as it was. When the status is the required one, the answer is
  \<open>{ok:true}\<close>, only the target row changes, and in it the supplied \<open>status\<close>,
  \<open>taskId\<close> and \<open>providerUrl\<close> are written.
\<close>

theorem updateVideoStatus_compare_and_swap:
  assumes "truthy (requireStatus d)"
    and "findRow (photoId d) sh = Some i"
  shows "(Some (videoStatus (sh ! i)) \<noteq> requireStatus d \<longrightarrow>
            updateVideoStatus nowIso d sh = (JsonMismatch (videoStatus (sh ! i)), sh)
            \<and> \<not> ok (fst (updateVideoStatus nowIso d sh)))
       \<and> (Some (videoStatus (sh ! i)) = requireStatus d \<longrightarrow>
            (\<exists>r'. updateVideoStatus nowIso d sh = (JsonOk, sh[i := r'])
               \<and> ok (fst (updateVideoStatus nowIso d sh))
               \<and> (truthy (status d) \<longrightarrow> Some (videoStatus r') = status d)
               \<and> (truthy (taskId d) \<longrightarrow> Some (videoTaskId r') = taskId d)
               \<and> (truthy (dataProviderUrl d) \<longrightarrow> Some (providerUrl r') = dataProviderUrl d)
               \<and> (\<not> truthy (status d) \<longrightarrow> videoStatus r' = videoStatus (sh ! i))
               \<and> (\<not> truthy (taskId d) \<longrightarrow> videoTaskId r' = videoTaskId (sh ! i))
               \<and> (\<not> truthy (dataProviderUrl d) \<longrightarrow> providerUrl r' = providerUrl (sh ! i))
               \<and> rid r' = rid (sh ! i) \<and> videoFileId r' = videoFileId (sh ! i)))"
  using assms
  by (auto simp: updateVideoStatus_def executeWithLock_def statusWrites_def Let_def truthy_def
      split: option.splits)

theorem updateVideoStatus_compare_and_swap_witness:
  "truthy (requireStatus (lockPayload runningRow ''http://v''))
   \<and> findRow (photoId (lockPayload runningRow ''http://v'')) [finishedRow] = Some 0
   \<and> updateVideoStatus ''2026'' (lockPayload runningRow ''http://v'') [finishedRow] =
       (JsonMismatch ''done'', [finishedRow])
   \<and> findRow (photoId (lockPayload runningRow ''http://v'')) [runningRow] = Some 0
   \<and> updateVideoStatus ''2026'' (lockPayload runningRow ''http://v'') [runningRow] =
       (JsonOk, [runningRow\<lparr>videoStatus := ''uploading'', providerUrl := ''http://v'',
                   updatedAt := ''2026''\<rparr>])"
proof -
  let ?d = "lockPayload runningRow ''http://v''"
  have t: "truthy (requireStatus ?d)"
    by (simp add: lockPayload_def emptyData_def truthy_def)
  have f1: "findRow (photoId ?d) [finishedRow] = Some 0"
    by (simp add: lockPayload_def emptyData_def runningRow_def finishedRow_def blankRow_def)
  have f2: "findRow (photoId ?d) [runningRow] = Some 0"
    by (simp add: lockPayload_def emptyData_def runningRow_def blankRow_def)
  have differs: "Some (videoStatus ([finishedRow] ! 0)) \<noteq> requireStatus ?d"
    by (simp add: lockPayload_def emptyData_def finishedRow_def blankRow_def)
  from updateVideoStatus_compare_and_swap [OF t f1, of "''2026''"] differs
  have mismatch: "updateVideoStatus ''2026'' ?d [finishedRow] = (JsonMismatch ''done'', [finishedRow])"
    by (simp add: finishedRow_def blankRow_def)
  have swap: "updateVideoStatus ''2026'' ?d [runningRow] =
       (JsonOk, [runningRow\<lparr>videoStatus := ''uploading'', providerUrl := ''http://v'',
                   updatedAt := ''2026''\<rparr>])"
    by (simp add: updateVideoStatus_def executeWithLock_def statusWrites_def Let_def
        lockPayload_def emptyData_def runningRow_def blankRow_def truthy_def)
  from t f1 f2 mismatch swap show ?thesis
    by simp
qed

section \<open>queueVideo has no status guard\<close>

text \<open>
  C10. For every row that the search finds, whatever its \<open>videoStatus\<close>, \<open>queueVideo\<close>
  answers \<open>{ok:true}\<close>, sets \<open>videoStatus\<close> to \<open>queued\<close>, overwrites the stored prompt,
  resolution and model with the supplied ones, and leaves \<open>videoTaskId\<close> and
  \<open>videoFileId\<close> as they were; no other row changes.
\<close>

theorem queueVideo_no_status_guard:
  assumes "findRow (photoId d) sh = Some i"
  shows "\<exists>r'. queueVideo nowIso d sh = (JsonOk, sh[i := r'])
           \<and> videoStatus r' = ''queued''
           \<and> videoPrompt r' = (if truthy (prompt d) then the (prompt d) else videoPrompt (sh ! i))
           \<and> videoResolution r' =
               (if truthy (resolution d) then the (resolution d) else videoResolution (sh ! i))
           \<and> videoModel r' = (if truthy (model d) then the (model d) else videoModel (sh ! i))
           \<and> videoTaskId r' = videoTaskId (sh ! i)
           \<and> videoFileId r' = videoFileId (sh ! i)
           \<and> rid r' = rid (sh ! i)"
proof -
  let ?r = "queueWrites nowIso d (sh ! i)"
  have "queueVideo nowIso d sh = (JsonOk, sh[i := ?r])"
    using assms by (simp add: queueVideo_def executeWithLock_def)
  moreover have "videoStatus ?r = ''queued''"
    by (simp add: queueWrites_def Let_def)
  moreover have "videoPrompt ?r = (if truthy (prompt d) then the (prompt d) else videoPrompt (sh ! i))"
    by (simp add: queueWrites_def Let_def)
  moreover have "videoResolution ?r =
      (if truthy (resolution d) then the (resolution d) else videoResolution (sh ! i))"
    by (simp add: queueWrites_def Let_def)
  moreover have "videoModel ?r = (if truthy (model d) then the (model d) else videoModel (sh ! i))"
    by (simp add: queueWrites_def Let_def)
  moreover have "videoTaskId ?r = videoTaskId (sh ! i)" "videoFileId ?r = videoFileId (sh ! i)"
    by (simp_all add: queueWrites_def Let_def)
  moreover have "rid ?r = rid (sh ! i)"
    by simp
  ultimately show ?thesis
    by blast
qed

theorem queueVideo_no_status_guard_witness:
  "findRow (photoId requeue) [finishedRow] = Some 0
   \<and> videoStatus finishedRow = ''done''
   \<and> queueVideo ''2026'' requeue [finishedRow] =
       (JsonOk, [finishedRow\<lparr>videoStatus := ''queued'', videoPrompt := ''zoom in'',
                   updatedAt := ''2026''\<rparr>])"
proof -
  have found: "findRow (photoId requeue) [finishedRow] = Some 0"
    by (simp add: requeue_def finishedRow_def emptyData_def blankRow_def)
  from queueVideo_no_status_guard [OF found, of "''2026''"]
  obtain r' where r': "queueVideo ''2026'' requeue [finishedRow] = (JsonOk, [finishedRow][0 := r'])"
    by blast
  have "queueVideo ''2026'' requeue [finishedRow] =
       (JsonOk, [finishedRow\<lparr>videoStatus := ''queued'', videoPrompt := ''zoom in'',
                   updatedAt := ''2026''\<rparr>])"
    by (simp add: queueVideo_def executeWithLock_def queueWrites_def Let_def requeue_def
        finishedRow_def emptyData_def blankRow_def truthy_def)
  with found r' show ?thesis
    by (simp add: finishedRow_def)
qed

section \<open>The finalizer\<close>

lemma finalize_done_row:
  assumes "finalizeVideoUpload env nowIso d w = (JsonOkFile f g, w')"
  shows "truthy (photoId d) \<and> (\<exists>i. findRow (photoId d) (gallery w') = Some i
            \<and> videoStatus (gallery w' ! i) = ''done'')"
  using assms
  by (auto simp: finalizeVideoUpload_def Let_def recordDone_def executeWithLock_def
       findRow_update findRow_bound
      split: if_splits pre_check.splits outcome.splits prod.splits option.splits)

text \<open>
  C5. A \<open>finalizeVideoUpload\<close> request (with its required \<open>photoId\<close> and \<open>videoUrl\<close>)
  whose target row has \<open>videoStatus\<close> \<open>done\<close> or a non-empty \<open>videoFileId\<close> is answered
  \<open>{ok:true, message:'Already uploaded'}\<close> and leaves the sheet, the Drive files and the
  list of downloads as they were, whatever the services outside would have answered. So
  after a call that recorded \<open>done\<close>, a second call for the same \<open>photoId\<close> creates no
  file.
\<close>

theorem finalizeVideoUpload_already_uploaded:
  "(truthy (photoId d) \<and> truthy (videoUrl d)
      \<and> findRow (photoId d) (gallery w) = Some i
      \<and> (videoStatus (gallery w ! i) = ''done'' \<or> videoFileId (gallery w ! i) \<noteq> [])
     \<longrightarrow> finalizeVideoUpload env nowIso d w = (JsonOkMessage ''Already uploaded'', w))
   \<and> (finalizeVideoUpload env nowIso d w = (JsonOkFile f g, w')
        \<and> photoId d' = photoId d \<and> truthy (videoUrl d')
     \<longrightarrow> finalizeVideoUpload env' nowIso' d' w' = (JsonOkMessage ''Already uploaded'', w'))"
proof (intro conjI impI)
  assume a: "truthy (photoId d) \<and> truthy (videoUrl d)
      \<and> findRow (photoId d) (gallery w) = Some i
      \<and> (videoStatus (gallery w ! i) = ''done'' \<or> videoFileId (gallery w ! i) \<noteq> [])"
  then show "finalizeVideoUpload env nowIso d w = (JsonOkMessage ''Already uploaded'', w)"
    by (auto simp: finalizeVideoUpload_def Let_def preCheck_def executeWithLock_def)
next
  assume b: "finalizeVideoUpload env nowIso d w = (JsonOkFile f g, w')
        \<and> photoId d' = photoId d \<and> truthy (videoUrl d')"
  with finalize_done_row [of env nowIso d w f g w']
  obtain i where "truthy (photoId d')" "findRow (photoId d') (gallery w') = Some i"
      "videoStatus (gallery w' ! i) = ''done''"
    by auto
  with b show "finalizeVideoUpload env' nowIso' d' w' = (JsonOkMessage ''Already uploaded'', w')"
    by (auto simp: finalizeVideoUpload_def Let_def preCheck_def executeWithLock_def)
qed

lemma finalize_first_call:
  "finalizeVideoUpload workingDrive ''2026'' (finalizePayload uploadingRow ''http://v'')
     (emptyWorld\<lparr>gallery := [uploadingRow]\<rparr>) =
   (JsonOkFile ''file1'' ''root'',
    \<lparr>gallery = [uploadingRow\<lparr>videoStatus := ''done'', videoFileId := ''file1'',
                  updatedAt := ''2026''\<rparr>],
     driveFiles = [(''file1'', ''root'')], downloads = [''http://v'']\<rparr>)"
  by (simp add: finalizeVideoUpload_def Let_def preCheck_def executeWithLock_def
      finalizePayload_def emptyData_def uploadingRow_def blankRow_def emptyWorld_def
      workingDrive_def truthy_def normalizeSessionFolder_def saveVideo_def resolveFolder_def
      recordDone_def)

theorem finalizeVideoUpload_already_uploaded_witness:
  "finalizeVideoUpload workingDrive ''2026'' (finalizePayload uploadingRow ''http://v'')
     (emptyWorld\<lparr>gallery := [uploadingRow]\<rparr>) =
   (JsonOkFile ''file1'' ''root'',
    \<lparr>gallery = [uploadingRow\<lparr>videoStatus := ''done'', videoFileId := ''file1'',
                  updatedAt := ''2026''\<rparr>],
     driveFiles = [(''file1'', ''root'')], downloads = [''http://v'']\<rparr>)
   \<and> finalizeVideoUpload workingDrive ''2027'' (finalizePayload uploadingRow ''http://v'')
      \<lparr>gallery = [uploadingRow\<lparr>videoStatus := ''done'', videoFileId := ''file1'',
                  updatedAt := ''2026''\<rparr>],
       driveFiles = [(''file1'', ''root'')], downloads = [''http://v'']\<rparr> =
     (JsonOkMessage ''Already uploaded'',
      \<lparr>gallery = [uploadingRow\<lparr>videoStatus := ''done'', videoFileId := ''file1'',
                  updatedAt := ''2026''\<rparr>],
       driveFiles = [(''file1'', ''root'')], downloads = [''http://v'']\<rparr>)"
proof -
  let ?d = "finalizePayload uploadingRow ''http://v''"
  have url: "truthy (videoUrl ?d)"
    by (simp add: finalizePayload_def emptyData_def truthy_def)
  from finalizeVideoUpload_already_uploaded
    [of ?d _ _ workingDrive "''2026''" "''file1''" "''root''" _ ?d workingDrive "''2027''"]
    finalize_first_call url
  show ?thesis
    by simp
qed

text \<open>
  C7. After the pre-check has let the request through, an exception of the download and a
  download answered with another code than 200 both return at once: the sheet is not
  written, and a row that the tick had moved to \<open>uploading\<close> stays there. Only an
  exception of the statements that save the file reaches the \<open>catch\<close> block, which sets
  the row to \<open>failed\<close>.
\<close>

theorem finalizeVideoUpload_download_failure_keeps_uploading:
  "finalizeVideoUpload (workingDrive\<lparr>fetchVideo := (\<lambda>u. Throws ''Timeout'')\<rparr>) ''2026''
     (finalizePayload uploadingRow ''http://v'') (emptyWorld\<lparr>gallery := [uploadingRow]\<rparr>) =
   (JsonError ''Fetch Error: Timeout'',
    \<lparr>gallery = [uploadingRow], driveFiles = [], downloads = [''http://v'']\<rparr>)
   \<and> finalizeVideoUpload (workingDrive\<lparr>fetchVideo := (\<lambda>u. Returns 404)\<rparr>) ''2026''
     (finalizePayload uploadingRow ''http://v'') (emptyWorld\<lparr>gallery := [uploadingRow]\<rparr>) =
   (JsonError ''Fetch Failed HTTP 404'',
    \<lparr>gallery = [uploadingRow], driveFiles = [], downloads = [''http://v'']\<rparr>)
   \<and> finalizeVideoUpload (workingDrive\<lparr>createFile := (\<lambda>f. Throws ''Quota'')\<rparr>) ''2026''
     (finalizePayload uploadingRow ''http://v'') (emptyWorld\<lparr>gallery := [uploadingRow]\<rparr>) =
   (JsonError ''Save Error: Quota'',
    \<lparr>gallery = [uploadingRow\<lparr>videoStatus := ''failed''\<rparr>], driveFiles = [],
     downloads = [''http://v'']\<rparr>)
   \<and> videoStatus uploadingRow = ''uploading''"
  by (simp add: finalizeVideoUpload_def Let_def preCheck_def executeWithLock_def
      finalizePayload_def emptyData_def uploadingRow_def blankRow_def emptyWorld_def
      workingDrive_def truthy_def normalizeSessionFolder_def saveVideo_def resolveFolder_def
      markFailed_def)

theorem finalizeVideoUpload_download_failure_keeps_uploading_witness:
  "gallery (snd (finalizeVideoUpload (workingDrive\<lparr>fetchVideo := (\<lambda>u. Throws ''Timeout'')\<rparr>)
     ''2026'' (finalizePayload uploadingRow ''http://v'') (emptyWorld\<lparr>gallery := [uploadingRow]\<rparr>)))
   = [uploadingRow]
   \<and> videoStatus uploadingRow = ''uploading''"
  using finalizeVideoUpload_download_failure_keeps_uploading
  by simp

lemma finalizeVideoUpload_download_failure:
  assumes "truthy (photoId d)" and "truthy (videoUrl d)"
    and "fst (preCheck (photoId d) (gallery w)) = Proceed"
    and "fetchVideo env (the (videoUrl d)) = Throws e
         \<or> (\<exists>code. fetchVideo env (the (videoUrl d)) = Returns code \<and> code \<noteq> 200)"
  shows "gallery (snd (finalizeVideoUpload env nowIso d w)) = gallery w
         \<and> \<not> ok (fst (finalizeVideoUpload env nowIso d w))"
  using assms
  by (auto simp: finalizeVideoUpload_def Let_def)

section \<open>What every reachable row satisfies\<close>

lemma all_update:
  "\<forall>r\<in>set sh. P r \<Longrightarrow> P r' \<Longrightarrow> \<forall>r\<in>set (sh[i := r']). P r"
  using set_update_subset_insert [of sh i r'] by auto

lemma inv_queueWrites: "rowInvariant (queueWrites nowIso d r)"
  by (simp add: rowInvariant_def queueWrites_def Let_def)

lemma inv_queueVideo:
  assumes "\<forall>r\<in>set sh. rowInvariant r"
  shows "\<forall>r\<in>set (snd (queueVideo nowIso d sh)). rowInvariant r"
proof (cases "findRow (photoId d) sh")
  case None
  with assms show ?thesis
    by (simp add: queueVideo_def executeWithLock_def)
next
  case (Some i)
  have "\<forall>r\<in>set (sh[i := queueWrites nowIso d (sh ! i)]). rowInvariant r"
    using assms inv_queueWrites by (rule all_update)
  with Some show ?thesis
    by (simp add: queueVideo_def executeWithLock_def)
qed

lemma inv_statusWrites_unguarded:
  assumes "\<forall>r\<in>set sh. rowInvariant r"
    and "\<not> truthy (requireStatus d)"
    and "\<And>r. rowInvariant (statusWrites nowIso d r)"
  shows "\<forall>r\<in>set (snd (updateVideoStatus nowIso d sh)). rowInvariant r"
proof (cases "findRow (photoId d) sh")
  case None
  with assms(1) show ?thesis
    by (simp add: updateVideoStatus_def executeWithLock_def)
next
  case (Some i)
  have "\<forall>r\<in>set (sh[i := statusWrites nowIso d (sh ! i)]). rowInvariant r"
    using assms(1) assms(3) by (rule all_update)
  with Some assms(2) show ?thesis
    by (simp add: updateVideoStatus_def executeWithLock_def)
qed

lemma inv_started:
  assumes "\<forall>r\<in>set sh. rowInvariant r" and "tid \<noteq> []"
  shows "\<forall>r\<in>set (snd (updateVideoStatus nowIso (startedPayload pid tid) sh)). rowInvariant r"
proof (rule inv_statusWrites_unguarded [OF assms(1)])
  show "\<not> truthy (requireStatus (startedPayload pid tid))"
    by (simp add: startedPayload_def emptyData_def truthy_def)
  show "rowInvariant (statusWrites nowIso (startedPayload pid tid) r)" for r
    using assms(2)
    by (simp add: rowInvariant_def statusWrites_def Let_def startedPayload_def emptyData_def
        truthy_def)
qed

lemma inv_failed:
  assumes "\<forall>r\<in>set sh. rowInvariant r"
  shows "\<forall>r\<in>set (snd (updateVideoStatus nowIso (failedPayload task) sh)). rowInvariant r"
proof (rule inv_statusWrites_unguarded [OF assms(1)])
  show "\<not> truthy (requireStatus (failedPayload task))"
    by (simp add: failedPayload_def emptyData_def truthy_def)
  show "rowInvariant (statusWrites nowIso (failedPayload task) r)" for r
    by (simp add: rowInvariant_def statusWrites_def Let_def failedPayload_def emptyData_def
        truthy_def)
qed

lemma inv_locked:
  assumes "\<forall>r\<in>set sh. rowInvariant r"
  shows "\<forall>r\<in>set (snd (updateVideoStatus nowIso (lockPayload task url) sh)). rowInvariant r"
proof (cases "findRow (photoId (lockPayload task url)) sh")
  case None
  with assms show ?thesis
    by (simp add: updateVideoStatus_def executeWithLock_def)
next
  case (Some i)
  then have "i < length sh" by (rule findRow_bound)
  with assms have inv: "rowInvariant (sh ! i)" by simp
  have req: "requireStatus (lockPayload task url) = Some ''processing''"
    by (simp add: lockPayload_def emptyData_def)
  show ?thesis
  proof (cases "videoStatus (sh ! i) = ''processing''")
    case True
    with inv have "rowInvariant (statusWrites nowIso (lockPayload task url) (sh ! i))"
      by (simp add: rowInvariant_def statusWrites_def Let_def lockPayload_def emptyData_def
          truthy_def)
    with assms have "\<forall>r\<in>set (sh[i := statusWrites nowIso (lockPayload task url) (sh ! i)]).
        rowInvariant r"
      by (rule all_update)
    with Some True req show ?thesis
      by (simp add: updateVideoStatus_def executeWithLock_def)
  next
    case False
    with assms Some req show ?thesis
      by (simp add: updateVideoStatus_def executeWithLock_def truthy_def)
  qed
qed

lemma uploadFile_gallery: "gallery (snd (uploadFile env d w)) = gallery w"
  by (simp add: uploadFile_def Let_def split: outcome.splits)

lemma uploadFile_id:
  "uploadFile env d w = (Returns fid, w') \<Longrightarrow> driveIds env \<Longrightarrow> fid \<noteq> []"
  by (auto simp: uploadFile_def Let_def driveIds_def split: outcome.splits)

lemma inv_galleryRow: "fid \<noteq> [] \<Longrightarrow> rowInvariant (galleryRow nowIso d fid)"
  by (simp add: galleryRow_def rowInvariant_def blankRow_def Let_def)

lemma inv_upload:
  assumes "\<forall>r\<in>set (gallery w). rowInvariant r" and "driveIds env"
  shows "\<forall>r\<in>set (gallery (snd (uploadGenerated env nowIso d w))). rowInvariant r"
proof (cases "uploadFile env d w")
  case (Pair res w')
  then have g: "gallery w' = gallery w"
    using uploadFile_gallery [of env d w] by simp
  show ?thesis
  proof (cases res)
    case (Throws e)
    with Pair g assms(1) show ?thesis
      by (simp add: uploadGenerated_def)
  next
    case (Returns fid)
    with Pair assms(2) have "fid \<noteq> []"
      by (auto dest: uploadFile_id)
    then have "rowInvariant (galleryRow nowIso d fid)"
      by (rule inv_galleryRow)
    with Pair Returns g assms(1) show ?thesis
      by (simp add: uploadGenerated_def)
  qed
qed

lemma saveVideo_gallery: "gallery (snd (saveVideo env s w)) = gallery w"
  by (simp add: saveVideo_def Let_def split: outcome.splits)

lemma saveVideo_id:
  "saveVideo env s w = (Returns (fid, folder), w') \<Longrightarrow> driveIds env \<Longrightarrow> fid \<noteq> []"
  by (auto simp: saveVideo_def Let_def driveIds_def split: outcome.splits)

lemma inv_markFailed:
  assumes "\<forall>r\<in>set sh. rowInvariant r"
  shows "\<forall>r\<in>set (snd (markFailed pid sh)). rowInvariant r"
proof (cases "findRow pid sh")
  case None
  with assms show ?thesis
    by (simp add: markFailed_def executeWithLock_def)
next
  case (Some i)
  have "rowInvariant ((sh ! i)\<lparr>videoStatus := ''failed''\<rparr>)"
    by (simp add: rowInvariant_def)
  with assms have "\<forall>r\<in>set (sh[i := (sh ! i)\<lparr>videoStatus := ''failed''\<rparr>]). rowInvariant r"
    by (rule all_update)
  with Some show ?thesis
    by (simp add: markFailed_def executeWithLock_def)
qed

lemma inv_recordDone:
  assumes "\<forall>r\<in>set sh. rowInvariant r" and "fileId \<noteq> []"
  shows "\<forall>r\<in>set (snd (recordDone nowIso pid fileId folder sh)). rowInvariant r"
proof (cases "findRow pid sh")
  case None
  with assms show ?thesis
    by (simp add: recordDone_def executeWithLock_def)
next
  case (Some i)
  have "rowInvariant ((sh ! i)\<lparr>videoStatus := ''done'', videoFileId := fileId,
      updatedAt := nowIso\<rparr>)"
    using assms(2) by (simp add: rowInvariant_def)
  with assms(1) have "\<forall>r\<in>set (sh[i := (sh ! i)\<lparr>videoStatus := ''done'',
      videoFileId := fileId, updatedAt := nowIso\<rparr>]). rowInvariant r"
    by (rule all_update)
  with Some show ?thesis
    by (simp add: recordDone_def executeWithLock_def)
qed

lemma inv_finalize:
  assumes inv: "\<forall>r\<in>set (gallery w). rowInvariant r" and ids: "driveIds env"
  shows "\<forall>r\<in>set (gallery (snd (finalizeVideoUpload env nowIso d w))). rowInvariant r"
proof -
  let ?w1 = "w\<lparr>downloads := downloads w @ [the (videoUrl d)]\<rparr>"
  let ?s = "normalizeSessionFolder (dataSessionFolderId d)"
  obtain res w2 where sv: "saveVideo env ?s ?w1 = (res, w2)"
    by (cases "saveVideo env ?s ?w1")
  then have g2: "gallery w2 = gallery w"
    using saveVideo_gallery [of env ?s ?w1] by simp
  have flipped: "\<forall>r\<in>set (snd (markFailed (photoId d) (gallery w2))). rowInvariant r"
    using inv g2 by (simp add: inv_markFailed)
  have recorded:
    "\<forall>r\<in>set (snd (recordDone nowIso (photoId d) fid folder (gallery w2))). rowInvariant r"
    if "res = Returns (fid, folder)" for fid folder
  proof -
    from that sv ids have "fid \<noteq> []"
      by (auto dest: saveVideo_id)
    with inv g2 show ?thesis
      by (simp add: inv_recordDone)
  qed
  show ?thesis
    using inv sv flipped recorded
    by (auto simp: finalizeVideoUpload_def Let_def
        split: pre_check.splits outcome.splits prod.splits)
qed

text \<open>
  C4, as the actions keep it. In every state reachable from the empty gallery through
  uploads, \<open>queueVideo\<close>, \<open>finalizeVideoUpload\<close> and the \<open>updateVideoStatus\<close> requests
  that the tick and the generate endpoint send, a row whose status is \<open>processing\<close> or
  \<open>uploading\<close> has a task id, and a row whose status is \<open>done\<close> has a file id.
\<close>

theorem reachable_rowInvariant:
  assumes "reachable w"
  shows "\<forall>r\<in>set (gallery w). rowInvariant r"
  using assms
proof induction
  case start
  show ?case by (simp add: emptyWorld_def)
next
  case (upload w env d nowIso)
  then show ?case by (simp add: inv_upload)
next
  case (queue w nowIso d)
  then show ?case by (simp add: inv_queueVideo)
next
  case (started w tid nowIso pid)
  then show ?case by (simp add: inv_started)
next
  case (locked w nowIso task url)
  then show ?case by (simp add: inv_locked)
next
  case (failed w nowIso task)
  then show ?case by (simp add: inv_failed)
next
  case (finalize w env nowIso d)
  then show ?case by (simp add: inv_finalize)
qed

lemma driveIds_workingDrive: "driveIds workingDrive"
  by (simp add: driveIds_def workingDrive_def)

lemma reachable_videoUploaded: "reachable videoUploaded"
proof -
  have "snd (uploadGenerated workingDrive ''2026'' videoUpload emptyWorld) = videoUploaded"
    by (simp add: uploadGenerated_def uploadFile_def Let_def workingDrive_def videoUpload_def
        emptyData_def emptyWorld_def truthy_def galleryRow_def videoUploaded_def videoRow_def
        orElse_def blankRow_def)
  moreover have "action videoUpload = ''uploadGenerated'' \<or> action videoUpload = ''uploadGeneratedVideo''"
    by (simp add: videoUpload_def emptyData_def)
  ultimately show ?thesis
    using reachable.upload [OF reachable.start driveIds_workingDrive, of videoUpload "''2026''"]
    by simp
qed

lemma reachable_photoUploaded: "reachable photoUploaded"
proof -
  have "snd (uploadGenerated workingDrive ''2026'' photoUpload emptyWorld) = photoUploaded"
    by (simp add: uploadGenerated_def uploadFile_def Let_def workingDrive_def photoUpload_def
        emptyData_def emptyWorld_def truthy_def galleryRow_def photoUploaded_def photoRow_def
        orElse_def blankRow_def)
  moreover have "action photoUpload = ''uploadGenerated'' \<or> action photoUpload = ''uploadGeneratedVideo''"
    by (simp add: photoUpload_def emptyData_def)
  ultimately show ?thesis
    using reachable.upload [OF reachable.start driveIds_workingDrive, of photoUpload "''2026''"]
    by simp
qed

lemma reachable_photoStarted: "reachable (photoUploaded\<lparr>gallery := [startedRow]\<rparr>)"
proof -
  have "snd (updateVideoStatus ''2027'' (startedPayload ''file1'' ''t1'') (gallery photoUploaded))
      = [startedRow]"
    by (simp add: updateVideoStatus_def executeWithLock_def statusWrites_def Let_def
        startedPayload_def emptyData_def truthy_def photoUploaded_def photoRow_def blankRow_def
        startedRow_def)
  then show ?thesis
    using reachable.started [OF reachable_photoUploaded, of "''t1''" "''2027''" "''file1''"]
    by simp
qed

lemma reachable_photoFailed: "reachable (photoUploaded\<lparr>gallery := [failedRow]\<rparr>)"
proof -
  have "snd (updateVideoStatus ''2028'' (failedPayload startedRow) [startedRow]) = [failedRow]"
    by (simp add: updateVideoStatus_def executeWithLock_def statusWrites_def Let_def
        failedPayload_def emptyData_def truthy_def photoRow_def blankRow_def
        startedRow_def failedRow_def)
  then show ?thesis
    using reachable.failed [OF reachable_photoStarted, of "''2028''" startedRow]
    by simp
qed

lemma reachable_videoRequeued: "reachable (videoUploaded\<lparr>gallery := [requeuedRow]\<rparr>)"
proof -
  have "snd (queueVideo ''2027'' (emptyData\<lparr>action := ''queueVideo'', photoId := Some ''file1''\<rparr>)
      (gallery videoUploaded)) = [requeuedRow]"
    by (simp add: queueVideo_def executeWithLock_def queueWrites_def Let_def
        emptyData_def truthy_def videoUploaded_def videoRow_def blankRow_def requeuedRow_def)
  then show ?thesis
    using reachable.queue [OF reachable_videoUploaded, of "''2027''"
        "emptyData\<lparr>action := ''queueVideo'', photoId := Some ''file1''\<rparr>"]
    by simp
qed

text \<open>
  The invariant as C4 words it fails in three reachable states: a directly uploaded video
  is \<open>done\<close> without a task id; a row that the tick reported \<open>failed\<close> keeps its task id;
  and a \<open>done\<close> row that is queued again keeps its file id.
\<close>

theorem claimed_invariant_counterexample:
  "reachable videoUploaded
   \<and> gallery videoUploaded = [videoRow]
   \<and> videoStatus videoRow = ''done'' \<and> videoTaskId videoRow = []
   \<and> \<not> claimedRowInvariant videoRow
   \<and> reachable (photoUploaded\<lparr>gallery := [failedRow]\<rparr>)
   \<and> videoStatus failedRow = ''failed'' \<and> videoTaskId failedRow = ''t1''
   \<and> \<not> claimedRowInvariant failedRow
   \<and> reachable (videoUploaded\<lparr>gallery := [requeuedRow]\<rparr>)
   \<and> videoStatus requeuedRow = ''queued'' \<and> videoFileId requeuedRow = ''file1''
   \<and> \<not> claimedRowInvariant requeuedRow"
  using reachable_videoUploaded reachable_photoFailed reachable_videoRequeued
  by (simp add: claimedRowInvariant_def videoUploaded_def videoRow_def failedRow_def
      startedRow_def photoRow_def requeuedRow_def blankRow_def)

theorem reachable_rowInvariant_witness:
  "reachable (photoUploaded\<lparr>gallery := [startedRow]\<rparr>)
   \<and> videoStatus startedRow = ''processing'' \<and> rowInvariant startedRow
   \<and> videoTaskId startedRow \<noteq> []"
  using reachable_rowInvariant [OF reachable_photoStarted] reachable_photoStarted
  by (simp add: startedRow_def photoRow_def blankRow_def rowInvariant_def)

section \<open>The submission endpoint and the provider client\<close>

lemma validateResolution_allowed: "fst (validateResolution r) \<in> {''480p'', ''720p''}"
  by (simp add: validateResolution_def Let_def)

lemma startArkVideoTask_issued:
  "q \<in> set (snd (startArkVideoTask prov payload)) \<Longrightarrow>
   ark_resolution q = orElse (p_resolution payload) ''480p'' \<and> ark_resolution q \<in> {''480p'', ''720p''}"
  by (auto simp: startArkVideoTask_def Let_def allowedResolutions_def
      split: if_splits ark_reply.splits)

lemma startPayload_resolution:
  "orElse (p_resolution (startPayload env body)) ''480p'' = fst (validateResolution (g_resolution body))"
  using validateResolution_allowed [of "g_resolution body"]
  by (auto simp: startPayload_def Let_def orElse_def truthy_def)

lemma generateHandler_issued:
  "set (arkIssued (generateHandler env method body sh))
     \<subseteq> set (snd (startArkVideoTask (provider env) (startPayload env body)))"
  by (auto simp: generateHandler_def Let_def
      split: option.splits prod.splits outcome.splits if_splits)

text \<open>
  C8. The resolution that reaches the provider is \<open>480p\<close> or \<open>720p\<close>. The handler of
  generate.ts uses \<open>480p\<close> for a missing value, replaces any other value outside the set
  by \<open>480p\<close> and writes a warning, and keeps a value of the set; every request that a
  submission posts to the provider carries the validated resolution. The provider client
  posts no request with a resolution outside the set: it throws \<open>Invalid resolution\<close>
  before anything is sent.
\<close>

theorem resolution_sent_is_allowed:
  "fst (validateResolution r) \<in> {''480p'', ''720p''}
   \<and> (\<not> truthy r \<longrightarrow> validateResolution r = (''480p'', []))
   \<and> (truthy r \<and> the r \<notin> {''480p'', ''720p''} \<longrightarrow>
        validateResolution r =
          (''480p'', [''[API Video] Invalid resolution '' @ the r @ '', defaulting to 480p'']))
   \<and> (truthy r \<and> the r \<in> {''480p'', ''720p''} \<longrightarrow> validateResolution r = (the r, []))
   \<and> (\<forall>q\<in>set (arkIssued (generateHandler env method body sh)).
        ark_resolution q = fst (validateResolution (g_resolution body))
        \<and> ark_resolution q \<in> {''480p'', ''720p''})
   \<and> (\<forall>q\<in>set (snd (startArkVideoTask prov payload)). ark_resolution q \<in> {''480p'', ''720p''})
   \<and> (orElse (p_resolution payload) ''480p'' \<notin> {''480p'', ''720p''} \<longrightarrow>
        startArkVideoTask prov payload =
          (Throws (''Invalid resolution: '' @ orElse (p_resolution payload) ''480p''
                     @ ''. Allowed: 480p, 720p.''), []))"
proof (intro conjI)
  show "fst (validateResolution r) \<in> {''480p'', ''720p''}"
    by (rule validateResolution_allowed)
  show "\<not> truthy r \<longrightarrow> validateResolution r = (''480p'', [])"
    by (simp add: validateResolution_def Let_def orElse_def)
  show "truthy r \<and> the r \<notin> {''480p'', ''720p''} \<longrightarrow>
        validateResolution r =
          (''480p'', [''[API Video] Invalid resolution '' @ the r @ '', defaulting to 480p''])"
    by (simp add: validateResolution_def Let_def orElse_def)
  show "truthy r \<and> the r \<in> {''480p'', ''720p''} \<longrightarrow> validateResolution r = (the r, [])"
    by (auto simp: validateResolution_def Let_def orElse_def)
  show "\<forall>q\<in>set (arkIssued (generateHandler env method body sh)).
        ark_resolution q = fst (validateResolution (g_resolution body))
        \<and> ark_resolution q \<in> {''480p'', ''720p''}"
  proof
    fix q assume "q \<in> set (arkIssued (generateHandler env method body sh))"
    with generateHandler_issued
    have "q \<in> set (snd (startArkVideoTask (provider env) (startPayload env body)))"
      by blast
    from startArkVideoTask_issued [OF this] startPayload_resolution [of env body]
    show "ark_resolution q = fst (validateResolution (g_resolution body))
        \<and> ark_resolution q \<in> {''480p'', ''720p''}"
      by auto
  qed
  show "\<forall>q\<in>set (snd (startArkVideoTask prov payload)). ark_resolution q \<in> {''480p'', ''720p''}"
    using startArkVideoTask_issued by blast
  show "orElse (p_resolution payload) ''480p'' \<notin> {''480p'', ''720p''} \<longrightarrow>
        startArkVideoTask prov payload =
          (Throws (''Invalid resolution: '' @ orElse (p_resolution payload) ''480p''
                     @ ''. Allowed: 480p, 720p.''), [])"
    by (simp add: startArkVideoTask_def Let_def allowedResolutions_def)
qed

lemma fetchGasLoop_all_fail:
  "i < retries \<Longrightarrow> (\<forall>j. i \<le> j \<and> j < retries \<longrightarrow> net j \<noteq> Delivered) \<Longrightarrow>
   \<exists>e sh' es. fetchGasLoop net nowIso payload retries i sh = (Throws e, sh', es)"
proof (induction net nowIso payload retries i sh rule: fetchGasLoop.induct)
  case (1 net nowIso payload retries i sh)
  from "1.prems" have nd: "net i \<noteq> Delivered" by simp
  then obtain e sh1 where att: "gasAttempt (net i) nowIso payload sh = (Throws e, sh1)"
    by (cases "net i") (simp_all add: gasAttempt_def)
  show ?case
  proof (cases "i = retries - 1")
    case True
    with "1.prems" att show ?thesis
      by (subst fetchGasLoop.simps) simp
  next
    case False
    with "1.prems" have "Suc i < retries" by simp
    moreover from "1.prems" have "\<forall>j. Suc i \<le> j \<and> j < retries \<longrightarrow> net j \<noteq> Delivered"
      by simp
    ultimately obtain e' sh' es where
      "fetchGasLoop net nowIso payload retries (Suc i) sh1 = (Throws e', sh', es)"
      using "1.IH" [OF _ att [symmetric] _ False] "1.prems"(1) by blast
    with "1.prems" att False show ?thesis
      by (subst fetchGasLoop.simps) simp
  qed
qed


lemma registerTask_logs_failure:
  assumes "truthy (env_APPS_SCRIPT_BASE_URL env)" and "truthy (g_driveFileId body)"
    and "\<forall>i<3. gasNet env i \<noteq> Delivered"
  shows "''[API Video] CRITICAL: Failed to update GAS after retries.''
           \<in> set (fst (registerTask env body tid sh))"
proof -
  from assms(3) have "\<forall>j. 0 \<le> j \<and> j < 3 \<longrightarrow> gasNet env j \<noteq> Delivered"
    by simp
  from fetchGasLoop_all_fail [OF _ this, of "gasNow env"
      "startedPayload (the (g_driveFileId body)) tid" sh]
  obtain e sh' es where
    "fetchGasWithRetry (gasNet env) (gasNow env) (startedPayload (the (g_driveFileId body)) tid) 3 sh
       = (Throws e, sh', es)"
    by (auto simp: fetchGasWithRetry_def)
  with assms(1,2) show ?thesis
    by (simp add: registerTask_def)
qed

text \<open>
  C9. Once the model guard and the image check have passed and \<open>startArkVideoTask\<close> has
  returned a task id, the handler answers 200 with \<open>{ok:true, taskId, status:'processing'}\<close>,
  whatever the network to the ledger does on each of the three attempts; when every
  attempt fails, the failure is written to the console.
\<close>

theorem generate_succeeds_once_provider_accepts:
  assumes "assertVideoModel (selectedModel env body) = None"
    and "inputImageUrl body (fst (validateResolution (g_resolution body))) \<noteq> []"
    and "fst (startArkVideoTask (provider env) (startPayload env body)) = Returns tid"
  shows "httpStatus (generateHandler env ''POST'' body sh) = 200
       \<and> httpBody (generateHandler env ''POST'' body sh) =
           GenStarted tid ''processing'' ''Video generation started''
             (fst (validateResolution (g_resolution body)))
       \<and> (truthy (env_APPS_SCRIPT_BASE_URL env) \<and> truthy (g_driveFileId body)
            \<and> (\<forall>i<3. gasNet env i \<noteq> Delivered) \<longrightarrow>
           ''[API Video] CRITICAL: Failed to update GAS after retries.''
             \<in> set (consoleLog (generateHandler env ''POST'' body sh)))"
proof -
  obtain issued where st: "startArkVideoTask (provider env) (startPayload env body) = (Returns tid, issued)"
    using assms(3) by (cases "startArkVideoTask (provider env) (startPayload env body)") simp
  obtain videoRes warned where vr: "validateResolution (g_resolution body) = (videoRes, warned)"
    by (cases "validateResolution (g_resolution body)")
  obtain written sh' where rt: "registerTask env body tid sh = (written, sh')"
    by (cases "registerTask env body tid sh")
  have out: "generateHandler env ''POST'' body sh =
      \<lparr>httpStatus = 200,
       httpBody = GenStarted tid ''processing'' ''Video generation started'' videoRes,
       consoleLog = warned @ written, arkIssued = issued, sheetAfter = sh'\<rparr>"
    using assms(1,2) st vr rt by (simp add: generateHandler_def)
  have "''[API Video] CRITICAL: Failed to update GAS after retries.'' \<in> set written"
    if "truthy (env_APPS_SCRIPT_BASE_URL env)" "truthy (g_driveFileId body)"
      "\<forall>i<3. gasNet env i \<noteq> Delivered"
    using registerTask_logs_failure [OF that, of tid sh] rt by simp
  with out vr show ?thesis
    by simp
qed

lemma submission_model: "assertVideoModel (selectedModel ledgerDown submission) = None"
  by (simp add: assertVideoModel_def selectedModel_def ledgerDown_def submission_def
      truthy_def orElse_def isValidVideoModel_def startsWith_def VIDEO_PREFIX_def)

lemma submission_start:
  "startArkVideoTask (provider ledgerDown) (startPayload ledgerDown submission) =
    (Returns ''task-1'',
     [\<lparr>ark_model = ''seedance-1-0-pro-fast-251015'',
       ark_text = ''Cinematic movement --rs 480p --dur 5'',
       ark_image_url = Some ''https://drive.google.com/thumbnail?id=file1&sz=w480'',
       ark_duration = 5, ark_resolution = ''480p'', ark_audio = False\<rparr>])"
  by (simp add: startArkVideoTask_def startPayload_def Let_def selectedModel_def
      ledgerDown_def submission_def truthy_def orElse_def validateResolution_def
      forcedPrompt_def inputImageUrl_def allowedResolutions_def)

theorem generate_succeeds_once_provider_accepts_witness:
  "assertVideoModel (selectedModel ledgerDown submission) = None
   \<and> fst (startArkVideoTask (provider ledgerDown) (startPayload ledgerDown submission)) = Returns ''task-1''
   \<and> gasNet ledgerDown 0 \<noteq> Delivered \<and> gasNet ledgerDown 1 \<noteq> Delivered
   \<and> gasNet ledgerDown 2 \<noteq> Delivered
   \<and> httpStatus (generateHandler ledgerDown ''POST'' submission [photoRow]) = 200
   \<and> httpBody (generateHandler ledgerDown ''POST'' submission [photoRow]) =
        GenStarted ''task-1'' ''processing'' ''Video generation started'' ''480p''
   \<and> ''[API Video] CRITICAL: Failed to update GAS after retries.''
        \<in> set (consoleLog (generateHandler ledgerDown ''POST'' submission [photoRow]))"
proof -
  have img: "inputImageUrl submission (fst (validateResolution (g_resolution submission))) \<noteq> []"
    by (simp add: inputImageUrl_def submission_def truthy_def)
  have st: "fst (startArkVideoTask (provider ledgerDown) (startPayload ledgerDown submission))
      = Returns ''task-1''"
    by (simp add: submission_start)
  have down: "\<forall>i<3. gasNet ledgerDown i \<noteq> Delivered"
    by (simp add: ledgerDown_def)
  have cfg: "truthy (env_APPS_SCRIPT_BASE_URL ledgerDown) \<and> truthy (g_driveFileId submission)"
    by (simp add: ledgerDown_def submission_def truthy_def)
  have res: "fst (validateResolution (g_resolution submission)) = ''480p''"
    by (simp add: validateResolution_def submission_def orElse_def truthy_def Let_def)
  from generate_succeeds_once_provider_accepts [OF submission_model img st, of "[photoRow]"]
    submission_model st down cfg res
  show ?thesis
    by (simp add: ledgerDown_def)
qed

theorem resolution_sent_is_allowed_witness:
  "validateResolution (Some ''1080p'') =
     (''480p'', [''[API Video] Invalid resolution 1080p, defaulting to 480p''])
   \<and> validateResolution None = (''480p'', [])
   \<and> validateResolution (Some ''720p'') = (''720p'', [])
   \<and> arkIssued (generateHandler ledgerDown ''POST'' submission [photoRow]) \<noteq> []
   \<and> ark_resolution (hd (arkIssued (generateHandler ledgerDown ''POST'' submission [photoRow]))) = ''480p''
   \<and> startArkVideoTask (\<lambda>q. ArkJson (Some ''task-1'') None)
        \<lparr>p_model = ''seedance-1'', p_prompt = ''x'', p_image_url = None, p_duration = None,
         p_resolution = Some ''1080p''\<rparr> =
       (Throws ''Invalid resolution: 1080p. Allowed: 480p, 720p.'', [])"
proof -
  let ?payload = "\<lparr>p_model = ''seedance-1'', p_prompt = ''x'', p_image_url = None,
      p_duration = None, p_resolution = Some ''1080p''\<rparr>"
  have v: "validateResolution (Some ''1080p'') =
       (''480p'', [''[API Video] Invalid resolution 1080p, defaulting to 480p''])
     \<and> validateResolution None = (''480p'', [])
     \<and> validateResolution (Some ''720p'') = (''720p'', [])"
    by (simp add: validateResolution_def orElse_def truthy_def Let_def)
  have issued: "arkIssued (generateHandler ledgerDown ''POST'' submission [photoRow]) =
      snd (startArkVideoTask (provider ledgerDown) (startPayload ledgerDown submission))"
    using submission_model submission_start
    by (simp add: generateHandler_def validateResolution_def submission_def orElse_def
        truthy_def Let_def inputImageUrl_def split: prod.splits)
  have i: "arkIssued (generateHandler ledgerDown ''POST'' submission [photoRow]) \<noteq> []
     \<and> ark_resolution (hd (arkIssued (generateHandler ledgerDown ''POST'' submission [photoRow])))
         = ''480p''"
    by (simp add: issued submission_start)
  have rejected: "orElse (p_resolution ?payload) ''480p'' \<notin> {''480p'', ''720p''}"
    by (simp add: orElse_def truthy_def)
  from resolution_sent_is_allowed [of "Some ''1080p''" ledgerDown "''POST''" submission
      "[photoRow]" "\<lambda>q. ArkJson (Some ''task-1'') None" ?payload] rejected
  have "startArkVideoTask (\<lambda>q. ArkJson (Some ''task-1'') None) ?payload =
      (Throws (''Invalid resolution: '' @ orElse (p_resolution ?payload) ''480p''
                 @ ''. Allowed: 480p, 720p.''), [])"
    by blast
  then have t: "startArkVideoTask (\<lambda>q. ArkJson (Some ''task-1'') None) ?payload =
      (Throws ''Invalid resolution: 1080p. Allowed: 480p, 720p.'', [])"
    by (simp add: orElse_def truthy_def)
  from v i t show ?thesis
    by blast
qed

section \<open>The admission of queued rows\<close>

text \<open>
  The listing that the tick reads is the sheet from its last row to its first: for a sheet
  of at most 50 rows that all have an id it is the reversed sheet.
\<close>

lemma doGetGallery_newest_first:
  "length sh \<le> 50 \<Longrightarrow> \<forall>r\<in>set sh. rid r \<noteq> [] \<Longrightarrow> doGetGallery sh = rev sh"
  by (simp add: doGetGallery_def)

lemma startQueued_posts:
  "t_startPosts (snd (startQueued env task st)) =
     t_startPosts st @ [(rid task, tickStartRequest env task)]"
  by (simp add: startQueued_def Let_def split: ark_reply.splits prod.splits outcome.splits)

lemma lockAndTrigger_posts [simp]:
  "t_startPosts (lockAndTrigger env task url st) = t_startPosts st"
  by (simp add: lockAndTrigger_def split: prod.splits outcome.splits option.splits)

lemma reportFailed_posts [simp]:
  "t_startPosts (reportFailed env task st) = t_startPosts st"
  by (simp add: reportFailed_def split: prod.splits outcome.splits)

lemma checkTask_posts: "t_startPosts (snd (checkTask env task st)) = t_startPosts st"
  by (simp add: checkTask_def Let_def split: poll_reply.splits)

lemma processLoop_posts: "t_startPosts (snd (processLoop env tasks st)) = t_startPosts st"
proof (induction tasks arbitrary: st)
  case Nil
  show ?case by simp
next
  case (Cons task tasks)
  obtain exc st' where ct: "checkTask env task st = (exc, st')"
    by (cases "checkTask env task st")
  with checkTask_posts [of env task st] have eq: "t_startPosts st' = t_startPosts st"
    by simp
  show ?case
  proof (cases exc)
    case None
    with ct have "processLoop env (task # tasks) st = processLoop env tasks st'"
      by simp
    with Cons.IH [of st'] eq show ?thesis
      by simp
  next
    case (Some e)
    with ct have "processLoop env (task # tasks) st = (Some e, st')"
      by simp
    with eq show ?thesis
      by simp
  qed
qed

lemma startLoop_posts:
  "\<exists>k\<le>length tasks.
     map fst (t_startPosts (snd (startLoop env tasks st))) =
       map fst (t_startPosts st) @ map rid (take k tasks)
     \<and> (fst (startLoop env tasks st) = None \<longrightarrow> k = length tasks)"
proof (induction tasks arbitrary: st)
  case Nil
  show ?case by simp
next
  case (Cons task tasks)
  obtain exc st' where sq: "startQueued env task st = (exc, st')"
    by (cases "startQueued env task st")
  have "t_startPosts (snd (startQueued env task st)) =
     t_startPosts st @ [(rid task, tickStartRequest env task)]"
    by (rule startQueued_posts)
  then have "t_startPosts st' = t_startPosts st @ [(rid task, tickStartRequest env task)]"
    by (simp only: sq snd_conv)
  then have posts: "map fst (t_startPosts st') = map fst (t_startPosts st) @ [rid task]"
    by simp
  show ?case
  proof (cases exc)
    case (Some e)
    with sq have step: "startLoop env (task # tasks) st = (Some e, st')"
      by simp
    show ?thesis
    proof (rule exI [of _ "Suc 0"], intro conjI)
      show "Suc 0 \<le> length (task # tasks)" by simp
      show "map fst (t_startPosts (snd (startLoop env (task # tasks) st))) =
         map fst (t_startPosts st) @ map rid (take (Suc 0) (task # tasks))"
        by (simp only: step snd_conv posts) simp
      show "fst (startLoop env (task # tasks) st) = None \<longrightarrow> Suc 0 = length (task # tasks)"
        by (simp only: step fst_conv) simp
    qed
  next
    case None
    with sq have step: "startLoop env (task # tasks) st = startLoop env tasks st'"
      by simp
    from Cons.IH [of st'] obtain k where kk: "k \<le> length tasks \<and>
      (map fst (t_startPosts (snd (startLoop env tasks st'))) =
         map fst (t_startPosts st') @ map rid (take k tasks)
       \<and> (fst (startLoop env tasks st') = None \<longrightarrow> k = length tasks))"
      ..
    note k = kk [THEN conjunct1] kk [THEN conjunct2, THEN conjunct1]
      kk [THEN conjunct2, THEN conjunct2]
    show ?thesis
    proof (rule exI [of _ "Suc k"], intro conjI)
      show "Suc k \<le> length (task # tasks)" using k(1) by simp
      show "map fst (t_startPosts (snd (startLoop env (task # tasks) st))) =
         map fst (t_startPosts st) @ map rid (take (Suc k) (task # tasks))"
        by (simp only: step k(2) posts) simp
      show "fst (startLoop env (task # tasks) st) = None \<longrightarrow> Suc k = length (task # tasks)"
        using k(3) by (simp only: step) simp
    qed
  qed
qed

lemma newTick_posts [simp]: "t_startPosts (newTick sh) = []"
  by (simp add: newTick_def)

lemma tickBody_posts:
  fixes items :: "row list"
  defines "ptasks \<equiv> filter (\<lambda>i. videoStatus i = ''processing'') items"
    and "qtasks \<equiv> filter (\<lambda>i. videoStatus i = ''queued'') items"
  shows "\<exists>k. k \<le> min (nat (3 - int (length ptasks))) (length qtasks)
     \<and> map fst (t_startPosts (snd (tickBody env items sh))) = map rid (take k qtasks)
     \<and> ((\<exists>rep active. fst (tickBody env items sh) = Tick200 rep active) \<longrightarrow>
          k = min (nat (3 - int (length ptasks))) (length qtasks))"
proof -
  let ?n = "nat (3 - int (length ptasks))"
  obtain exc st1 where pl: "processLoop env ptasks (newTick sh) = (exc, st1)"
    by (cases "processLoop env ptasks (newTick sh)")
  have "t_startPosts (snd (processLoop env ptasks (newTick sh))) = t_startPosts (newTick sh)"
    by (rule processLoop_posts)
  then have p1: "t_startPosts st1 = []"
    by (simp add: pl)
  show ?thesis
  proof (cases exc)
    case (Some e)
    with pl have tb: "tickBody env items sh = (Tick500 e, st1)"
      by (simp add: tickBody_def Let_def ptasks_def)
    show ?thesis
    proof (rule exI [of _ 0], intro conjI)
      show "0 \<le> min ?n (length qtasks)" by simp
      show "map fst (t_startPosts (snd (tickBody env items sh))) = map rid (take 0 qtasks)"
        by (simp add: tb p1)
      show "(\<exists>rep active. fst (tickBody env items sh) = Tick200 rep active) \<longrightarrow>
          0 = min ?n (length qtasks)"
        by (simp add: tb)
    qed
  next
    case None
    show ?thesis
    proof (cases "MAX_CONCURRENT - int (length ptasks) > 0 \<and> length qtasks > 0")
      case False
      with pl None have tb: "tickBody env items sh =
          (Tick200 (t_report st1) (length ptasks + length qtasks), st1)"
        by (simp add: tickBody_def Let_def ptasks_def qtasks_def)
      from False have zero: "min ?n (length qtasks) = 0"
        by (auto simp: MAX_CONCURRENT_def)
      show ?thesis
      proof (rule exI [of _ 0], intro conjI)
        show "0 \<le> min ?n (length qtasks)" by simp
        show "map fst (t_startPosts (snd (tickBody env items sh))) = map rid (take 0 qtasks)"
          by (simp add: tb p1)
        show "(\<exists>rep active. fst (tickBody env items sh) = Tick200 rep active) \<longrightarrow>
            0 = min ?n (length qtasks)"
          by (simp add: zero)
      qed
    next
      case True
      then have n: "nat (MAX_CONCURRENT - int (length ptasks)) = ?n"
        by (simp add: MAX_CONCURRENT_def)
      obtain exc2 st2 where sl: "startLoop env (take ?n qtasks) st1 = (exc2, st2)"
        by (cases "startLoop env (take ?n qtasks) st1")
      from startLoop_posts [of "take ?n qtasks" env st1]
      obtain k where kk: "k \<le> length (take ?n qtasks) \<and>
        (map fst (t_startPosts (snd (startLoop env (take ?n qtasks) st1))) =
           map fst (t_startPosts st1) @ map rid (take k (take ?n qtasks))
         \<and> (fst (startLoop env (take ?n qtasks) st1) = None \<longrightarrow> k = length (take ?n qtasks)))"
        ..
      from kk have k1: "k \<le> min ?n (length qtasks)"
        by simp
      then have tk: "take k (take ?n qtasks) = take k qtasks"
        by (simp add: min_absorb1)
      from kk have k2: "map fst (t_startPosts st2) = map rid (take k qtasks)"
        by (simp add: sl p1 tk)
      from kk have k3: "exc2 = None \<longrightarrow> k = min ?n (length qtasks)"
        by (simp add: sl min.commute)
      have tb: "tickBody env items sh =
          (case exc2 of Some e \<Rightarrow> (Tick500 e, st2)
           | None \<Rightarrow> (Tick200 (t_report st2) (length ptasks + length qtasks), st2))"
        using pl None True sl n
        by (simp add: tickBody_def Let_def ptasks_def qtasks_def split: option.splits)
      show ?thesis
      proof (rule exI [of _ k], intro conjI)
        show "k \<le> min ?n (length qtasks)" by (rule k1)
        show "map fst (t_startPosts (snd (tickBody env items sh))) = map rid (take k qtasks)"
          using k2 by (cases exc2) (simp_all add: tb)
        show "(\<exists>rep active. fst (tickBody env items sh) = Tick200 rep active) \<longrightarrow>
            k = min ?n (length qtasks)"
          using k3 by (cases exc2) (simp_all add: tb)
      qed
    qed
  qed
qed

text \<open>
  For every listing that the tick is given: the rows with a start request are the first
  \<open>k\<close> queued rows of the listing, with \<open>k\<close> at most \<open>min (max (3 - p) 0) q\<close>, and
  exactly that many when the tick returns its report.
\<close>

lemma tickBody_admission:
  assumes "ptasks = filter (\<lambda>i. videoStatus i = ''processing'') items"
    and "qtasks = filter (\<lambda>i. videoStatus i = ''queued'') items"
    and "slots = min (max (3 - int (length ptasks)) 0) (int (length qtasks))"
  shows "int (length (t_startPosts (snd (tickBody env items sh)))) \<le> slots
       \<and> slots \<le> 3
       \<and> (\<exists>k. map fst (t_startPosts (snd (tickBody env items sh))) = map rid (take k qtasks))
       \<and> ((\<exists>rep active. fst (tickBody env items sh) = Tick200 rep active) \<longrightarrow>
            int (length (t_startPosts (snd (tickBody env items sh)))) = slots
            \<and> map fst (t_startPosts (snd (tickBody env items sh))) = map rid (take (nat slots) qtasks))"
proof -
  let ?posts = "t_startPosts (snd (tickBody env items sh))"
  let ?m = "min (nat (3 - int (length ptasks))) (length qtasks)"
  from tickBody_posts [of items env sh]
  obtain k where kk: "k \<le> ?m \<and> map fst ?posts = map rid (take k qtasks)
     \<and> ((\<exists>rep active. fst (tickBody env items sh) = Tick200 rep active) \<longrightarrow> k = ?m)"
    unfolding assms(1,2) ..
  note k1 = kk [THEN conjunct1] and k2 = kk [THEN conjunct2, THEN conjunct1]
    and k3 = kk [THEN conjunct2, THEN conjunct2]
  have m: "int ?m = slots"
    unfolding assms(3) by linarith
  have "length (map fst ?posts) = length (map rid (take k qtasks))"
    by (simp only: k2)
  with k1 have len: "length ?posts = k"
    by simp
  have a: "int (length ?posts) \<le> slots"
    using k1 m len by linarith
  have b: "slots \<le> 3"
    unfolding assms(3) by simp
  have c: "\<exists>k. map fst ?posts = map rid (take k qtasks)"
    using k2 by (rule exI)
  have d: "(\<exists>rep active. fst (tickBody env items sh) = Tick200 rep active) \<longrightarrow>
      int (length ?posts) = slots \<and> map fst ?posts = map rid (take (nat slots) qtasks)"
  proof
    assume "\<exists>rep active. fst (tickBody env items sh) = Tick200 rep active"
    with k3 have km: "k = ?m" by (rule mp)
    have "nat slots = ?m"
      using m by linarith
    with km k2 len m show "int (length ?posts) = slots
        \<and> map fst ?posts = map rid (take (nat slots) qtasks)"
      by simp
  qed
  from a b c d show ?thesis
    by (intro conjI)
qed

text \<open>
  The listing of \<open>doGet\<close> runs through the sheet from its last row to its first: its
  queued rows are the queued rows with an id among the last \<open>n\<close> rows of the sheet, the
  last row first.
\<close>

lemma take_filter_ex: "\<exists>n. take k (filter P xs) = filter P (take n xs)"
proof (induction xs arbitrary: k)
  case Nil
  show ?case by simp
next
  case (Cons x xs)
  show ?case
  proof (cases k)
    case 0
    have "take k (filter P (x # xs)) = filter P (take 0 (x # xs))"
      using 0 by simp
    then show ?thesis ..
  next
    case (Suc j)
    show ?thesis
    proof (cases "P x")
      case True
      from Cons.IH [of j] obtain n where "take j (filter P xs) = filter P (take n xs)" ..
      with True Suc have "take k (filter P (x # xs)) = filter P (take (Suc n) (x # xs))"
        by simp
      then show ?thesis ..
    next
      case False
      from Cons.IH [of k] obtain n where "take k (filter P xs) = filter P (take n xs)" ..
      with False have "take k (filter P (x # xs)) = filter P (take (Suc n) (x # xs))"
        by simp
      then show ?thesis ..
    qed
  qed
qed

lemma doGetGallery_queued:
  "\<exists>n. filter (\<lambda>i. videoStatus i = ''queued'') (doGetGallery sh) =
     filter (\<lambda>i. rid i \<noteq> [] \<and> videoStatus i = ''queued'') (take n (rev sh))"
proof -
  obtain n where "take 50 (filter (\<lambda>r. rid r \<noteq> []) (rev sh)) =
      filter (\<lambda>r. rid r \<noteq> []) (take n (rev sh))"
    using take_filter_ex [of 50 "\<lambda>r. rid r \<noteq> []" "rev sh"] ..
  then have "filter (\<lambda>i. videoStatus i = ''queued'') (doGetGallery sh) =
     filter (\<lambda>i. rid i \<noteq> [] \<and> videoStatus i = ''queued'') (take n (rev sh))"
    by (simp add: doGetGallery_def)
  then show ?thesis ..
qed

lemma tickOnLedger_tickBody: "tickOnLedger env sh = tickBody env (doGetGallery sh) sh"
  by (simp add: tickOnLedger_def tickHandler_def)


text \<open>
  C3, as the code keeps it. Let a tick read the listing of the ledger and observe in it
  \<open>p\<close> rows in \<open>processing\<close> and \<open>q\<close> rows in \<open>queued\<close>. If the tick runs to its
  report, it has attempted a start request for exactly the first \<open>min (max (3 - p) 0) q\<close>
  queued rows of the listing. In every tick the rows with an attempted start request are
  the first \<open>k\<close> queued rows of the listing for some \<open>k\<close> that is at most
  \<open>min (max (3 - p) 0) q\<close>, hence at most 3. The order of the listing is not the order of
  the ledger's rows but its reverse: the queued rows of the listing are the queued rows
  with an id among the last \<open>n\<close> rows of the sheet, the last row first; for a sheet of at
  most 50 rows that all have an id they are all queued rows of the sheet in reverse order.
\<close>

theorem tick_starts_newest_queued:
  assumes "items = doGetGallery sh"
    and "ptasks = filter (\<lambda>i. videoStatus i = ''processing'') items"
    and "qtasks = filter (\<lambda>i. videoStatus i = ''queued'') items"
    and "slots = min (max (3 - int (length ptasks)) 0) (int (length qtasks))"
    and "posts = t_startPosts (snd (tickOnLedger env sh))"
  shows "((\<exists>rep active. fst (tickOnLedger env sh) = Tick200 rep active) \<longrightarrow>
            int (length posts) = slots \<and> map fst posts = map rid (take (nat slots) qtasks))
       \<and> int (length posts) \<le> slots
       \<and> slots \<le> 3
       \<and> (\<exists>k. map fst posts = map rid (take k qtasks))
       \<and> (\<exists>n. qtasks =
              filter (\<lambda>i. rid i \<noteq> [] \<and> videoStatus i = ''queued'') (take n (rev sh)))
       \<and> (length sh \<le> 50 \<and> (\<forall>r\<in>set sh. rid r \<noteq> []) \<longrightarrow>
            qtasks = rev (filter (\<lambda>i. videoStatus i = ''queued'') sh))"
proof -
  have tb: "tickOnLedger env sh = tickBody env items sh"
    unfolding assms(1) by (rule tickOnLedger_tickBody)
  have posts: "posts = t_startPosts (snd (tickBody env items sh))"
    unfolding assms(5) by (simp only: tb)
  note adm = tickBody_admission [OF assms(2) assms(3) assms(4), of env sh]
  have a: "(\<exists>rep active. fst (tickOnLedger env sh) = Tick200 rep active) \<longrightarrow>
            int (length posts) = slots \<and> map fst posts = map rid (take (nat slots) qtasks)"
    unfolding posts tb
    by (rule adm [THEN conjunct2, THEN conjunct2, THEN conjunct2])
  have b: "int (length posts) \<le> slots"
    unfolding posts by (rule adm [THEN conjunct1])
  have c: "slots \<le> 3"
    by (rule adm [THEN conjunct2, THEN conjunct1])
  have d: "\<exists>k. map fst posts = map rid (take k qtasks)"
    unfolding posts by (rule adm [THEN conjunct2, THEN conjunct2, THEN conjunct1])
  have e: "\<exists>n. qtasks =
      filter (\<lambda>i. rid i \<noteq> [] \<and> videoStatus i = ''queued'') (take n (rev sh))"
    unfolding assms(3) assms(1) by (rule doGetGallery_queued)
  have f: "length sh \<le> 50 \<and> (\<forall>r\<in>set sh. rid r \<noteq> []) \<longrightarrow>
      qtasks = rev (filter (\<lambda>i. videoStatus i = ''queued'') sh)"
  proof
    assume "length sh \<le> 50 \<and> (\<forall>r\<in>set sh. rid r \<noteq> [])"
    then have "doGetGallery sh = rev sh"
      by (simp add: doGetGallery_newest_first)
    then show "qtasks = rev (filter (\<lambda>i. videoStatus i = ''queued'') sh)"
      unfolding assms(3) assms(1) by (simp add: rev_filter)
  qed
  from a b c d e f show ?thesis
    by (intro conjI)
qed

lemma tenQueued_listing:
  "doGetGallery tenQueued = rev tenQueued
   \<and> filter (\<lambda>i. videoStatus i = ''processing'') (rev tenQueued) = []
   \<and> filter (\<lambda>i. videoStatus i = ''queued'') (rev tenQueued) = rev tenQueued
   \<and> length tenQueued = 10"
  by (simp add: doGetGallery_def tenQueued_def queuedRow_def blankRow_def)

lemma tenQueued_tickOnLedger:
  "fst (tickOnLedger reliableTick tenQueued) =
     Tick200 \<lparr>processed = 0, started = 3, rescued = 0, errors = []\<rparr> 10"
  by code_simp

theorem tick_starts_newest_queued_witness:
  "doGetGallery tenQueued = rev tenQueued
   \<and> length (filter (\<lambda>i. videoStatus i = ''processing'') (doGetGallery tenQueued)) = 0
   \<and> length (filter (\<lambda>i. videoStatus i = ''queued'') (doGetGallery tenQueued)) = 10
   \<and> fst (tickOnLedger reliableTick tenQueued) =
       Tick200 \<lparr>processed = 0, started = 3, rescued = 0, errors = []\<rparr> 10
   \<and> int (length (t_startPosts (snd (tickOnLedger reliableTick tenQueued)))) = 3
   \<and> map fst (t_startPosts (snd (tickOnLedger reliableTick tenQueued))) =
       [''q9'', ''q8'', ''q7'']"
proof -
  have i: "rev tenQueued = doGetGallery tenQueued"
    by (simp add: tenQueued_listing)
  have p: "[] = filter (\<lambda>i. videoStatus i = ''processing'') (rev tenQueued)"
    by (simp add: tenQueued_listing)
  have q: "rev tenQueued = filter (\<lambda>i. videoStatus i = ''queued'') (rev tenQueued)"
    by (simp add: tenQueued_listing)
  have slots: "(3::int) =
      min (max (3 - int (length ([]::row list))) 0) (int (length (rev tenQueued)))"
    by (simp add: tenQueued_listing)
  have last3: "map rid (take (nat 3) (rev tenQueued)) = [''q9'', ''q8'', ''q7'']"
    by (simp add: tenQueued_def queuedRow_def blankRow_def)
  from tick_starts_newest_queued [OF i p q slots refl, of reliableTick] tenQueued_tickOnLedger
  have "int (length (t_startPosts (snd (tickOnLedger reliableTick tenQueued)))) = 3
      \<and> map fst (t_startPosts (snd (tickOnLedger reliableTick tenQueued))) =
          map rid (take (nat 3) (rev tenQueued))"
    by simp
  with last3 tenQueued_listing tenQueued_tickOnLedger show ?thesis
    by simp
qed

text \<open>
  The claim as the specification words it does not hold. On a sheet of ten queued rows
  \<open>q0\<close>, ..., \<open>q9\<close>, the first three in ledger row order are \<open>q0\<close>, \<open>q1\<close>, \<open>q2\<close>; the
  tick that runs to its report starts \<open>q9\<close>, \<open>q8\<close>, \<open>q7\<close>. And when the \<open>fetch\<close> of
  the start request throws, the tick ends with one attempt, not three.
\<close>

theorem claimed_start_attempts_counterexample:
  "claimedStarts tenQueued = [''q0'', ''q1'', ''q2'']
   \<and> fst (tickOnLedger reliableTick tenQueued) =
       Tick200 \<lparr>processed = 0, started = 3, rescued = 0, errors = []\<rparr> 10
   \<and> map fst (t_startPosts (snd (tickOnLedger reliableTick tenQueued))) =
       [''q9'', ''q8'', ''q7'']
   \<and> map fst (t_startPosts (snd (tickOnLedger reliableTick tenQueued))) \<noteq>
       claimedStarts tenQueued
   \<and> fst (tickOnLedger startFails tenQueued) = Tick500 ''fetch failed''
   \<and> length (t_startPosts (snd (tickOnLedger startFails tenQueued))) = 1
   \<and> length (claimedStarts tenQueued) = 3"
  by code_simp


section \<open>Failures during a tick\<close>

lemma lockAndTrigger_errors [simp]:
  "errors (t_report (lockAndTrigger env task url st)) = errors (t_report st)"
  by (simp add: lockAndTrigger_def split: prod.splits outcome.splits option.splits)

lemma reportFailed_errors [simp]:
  "errors (t_report (reportFailed env task st)) = errors (t_report st)"
  by (simp add: reportFailed_def split: prod.splits outcome.splits)

lemma checkTask_errors:
  "errors (t_report (snd (checkTask env task st))) = errors (t_report st)"
  by (simp add: checkTask_def Let_def split: poll_reply.splits)

lemma startQueued_errors:
  "errors (t_report (snd (startQueued env task st))) = errors (t_report st)"
  by (simp add: startQueued_def Let_def split: ark_reply.splits prod.splits outcome.splits)

lemma processLoop_errors:
  "errors (t_report (snd (processLoop env tasks st))) = errors (t_report st)"
proof (induction tasks arbitrary: st)
  case Nil
  show ?case by simp
next
  case (Cons task tasks)
  obtain exc st' where ct: "checkTask env task st = (exc, st')"
    by (cases "checkTask env task st")
  with checkTask_errors [of env task st] have eq: "errors (t_report st') = errors (t_report st)"
    by simp
  show ?case
  proof (cases exc)
    case None
    with ct have "processLoop env (task # tasks) st = processLoop env tasks st'"
      by simp
    with Cons.IH [of st'] eq show ?thesis
      by simp
  next
    case (Some e)
    with ct have "processLoop env (task # tasks) st = (Some e, st')"
      by simp
    with eq show ?thesis
      by simp
  qed
qed

lemma startLoop_errors:
  "errors (t_report (snd (startLoop env tasks st))) = errors (t_report st)"
proof (induction tasks arbitrary: st)
  case Nil
  show ?case by simp
next
  case (Cons task tasks)
  obtain exc st' where sq: "startQueued env task st = (exc, st')"
    by (cases "startQueued env task st")
  with startQueued_errors [of env task st] have eq: "errors (t_report st') = errors (t_report st)"
    by simp
  show ?case
  proof (cases exc)
    case None
    with sq have "startLoop env (task # tasks) st = startLoop env tasks st'"
      by simp
    with Cons.IH [of st'] eq show ?thesis
      by simp
  next
    case (Some e)
    with sq have "startLoop env (task # tasks) st = (Some e, st')"
      by simp
    with eq show ?thesis
      by simp
  qed
qed

lemma tickBody_state_errors: "errors (t_report (snd (tickBody env items sh))) = []"
proof -
  let ?p = "filter (\<lambda>i. videoStatus i = ''processing'') items"
  let ?q = "filter (\<lambda>i. videoStatus i = ''queued'') items"
  obtain exc st1 where pl: "processLoop env ?p (newTick sh) = (exc, st1)"
    by (cases "processLoop env ?p (newTick sh)")
  with processLoop_errors [of env ?p "newTick sh"] have e1: "errors (t_report st1) = []"
    by (simp add: newTick_def)
  let ?n = "nat (MAX_CONCURRENT - int (length ?p))"
  obtain exc2 st2 where sl: "startLoop env (take ?n ?q) st1 = (exc2, st2)"
    by (cases "startLoop env (take ?n ?q) st1")
  with startLoop_errors [of env "take ?n ?q" st1] e1 have e2: "errors (t_report st2) = []"
    by simp
  show ?thesis
    using pl sl e1 e2
    by (simp add: tickBody_def Let_def split: option.splits)
qed

lemma tickBody_report_state:
  "fst (tickBody env items sh) = Tick200 rep active \<Longrightarrow>
   rep = t_report (snd (tickBody env items sh))"
  by (auto simp: tickBody_def Let_def split: option.splits prod.splits if_splits)

text \<open>Nothing is ever added to the \<open>errors\<close> list of the report.\<close>

lemma tick_report_errors_empty:
  "fst (tickBody env items sh) = Tick200 rep active \<Longrightarrow> errors rep = []"
  using tickBody_report_state [of env items sh rep active] tickBody_state_errors [of env items sh]
  by simp

text \<open>
  C6. With two rows in \<open>processing\<close>, an exception of the poll for the first row ends the
  tick with status 500: the second row is never polled and no report is returned. A
  failure of the ledger call for the first row is caught and the second row is handled,
  but the message goes to the console only: the \<open>errors\<close> list of the report is empty.
\<close>

theorem tick_poll_exception_aborts:
  "tickBody pollFails [rowA, rowB] [rowA, rowB] =
     (Tick500 ''fetch failed'', (newTick [rowA, rowB])\<lparr>t_polled := [''tA'']\<rparr>)
   \<and> fst (tickBody lockFails [rowA, rowB] [rowA, rowB]) =
       Tick200 \<lparr>processed = 1, started = 0, rescued = 0, errors = []\<rparr> 2
   \<and> t_polled (snd (tickBody lockFails [rowA, rowB] [rowA, rowB])) = [''tA'', ''tB'']
   \<and> t_finalize (snd (tickBody lockFails [rowA, rowB] [rowA, rowB])) =
       [finalizePayload rowB ''http://v'']
   \<and> t_console (snd (tickBody lockFails [rowA, rowB] [rowA, rowB])) =
       [''[TICK] Lock failed for a: Status: 500'']"
  by code_simp

theorem tick_poll_exception_aborts_witness:
  "fst (tickBody pollFails [rowA, rowB] [rowA, rowB]) = Tick500 ''fetch failed''
   \<and> t_polled (snd (tickBody pollFails [rowA, rowB] [rowA, rowB])) = [''tA'']"
  using tick_poll_exception_aborts
  by simp

section \<open>No duplicate finalization\<close>

lemma isLock_lockPayload: "isLock (rid task) (lockPayload task url)"
  by (simp add: isLock_def lockPayload_def emptyData_def)

lemma lock_answer:
  assumes "isLock pid d"
  shows "ok (fst (updateVideoStatus nowIso d sh)) = processingAt pid sh"
proof (cases "findRow (Some pid) sh")
  case None
  with assms show ?thesis
    by (simp add: updateVideoStatus_def executeWithLock_def isLock_def processingAt_def)
next
  case (Some i)
  with assms show ?thesis
    by (simp add: updateVideoStatus_def executeWithLock_def isLock_def processingAt_def
        truthy_def Let_def)
qed

lemma lock_mismatch_keeps:
  assumes "isLock pid d" and "\<not> processingAt pid sh"
  shows "snd (updateVideoStatus nowIso d sh) = sh"
proof (cases "findRow (Some pid) sh")
  case None
  with assms show ?thesis
    by (simp add: updateVideoStatus_def executeWithLock_def isLock_def)
next
  case (Some i)
  with assms show ?thesis
    by (simp add: updateVideoStatus_def executeWithLock_def isLock_def processingAt_def
        truthy_def)
qed

lemma lock_leaves_processing:
  assumes "isLock pid d"
  shows "\<not> processingAt pid (snd (updateVideoStatus nowIso d sh))"
proof (cases "processingAt pid sh")
  case False
  with lock_mismatch_keeps [OF assms False] show ?thesis
    by simp
next
  case True
  then obtain i where i: "findRow (Some pid) sh = Some i" "videoStatus (sh ! i) = ''processing''"
    by (auto simp: processingAt_def split: option.splits)
  from i(1) have b: "i < length sh" by (rule findRow_bound)
  let ?r = "statusWrites nowIso d (sh ! i)"
  from i assms have upd: "snd (updateVideoStatus nowIso d sh) = sh[i := ?r]"
    by (simp add: updateVideoStatus_def executeWithLock_def isLock_def)
  have "findRow (Some pid) (sh[i := ?r]) = Some i"
    using i(1) by (rule findRow_update) simp
  moreover have "videoStatus ?r = ''uploading''"
    using assms by (simp add: statusWrites_def Let_def isLock_def truthy_def)
  ultimately show ?thesis
    using b by (simp add: upd processingAt_def)
qed

lemma failed_leaves_processing:
  "\<not> processingAt (rid task) (snd (updateVideoStatus nowIso (failedPayload task) sh))"
proof (cases "findRow (Some (rid task)) sh")
  case None
  then show ?thesis
    by (simp add: updateVideoStatus_def executeWithLock_def failedPayload_def emptyData_def
        processingAt_def)
next
  case (Some i)
  then have b: "i < length sh" by (rule findRow_bound)
  let ?d = "failedPayload task"
  let ?r = "statusWrites nowIso ?d (sh ! i)"
  from Some have upd: "snd (updateVideoStatus nowIso ?d sh) = sh[i := ?r]"
    by (simp add: updateVideoStatus_def executeWithLock_def failedPayload_def emptyData_def
        truthy_def)
  have "findRow (Some (rid task)) (sh[i := ?r]) = Some i"
    using Some by (rule findRow_update) simp
  moreover have "videoStatus ?r = ''failed''"
    by (simp add: statusWrites_def Let_def failedPayload_def emptyData_def truthy_def)
  ultimately show ?thesis
    using b by (simp add: upd processingAt_def)
qed

text \<open>A property of the sheet that every run of the request keeps is kept by the retry loop.\<close>

lemma fetchGasLoop_keeps:
  "\<forall>s. P s \<longrightarrow> P (snd (updateVideoStatus nowIso payload s)) \<Longrightarrow> P sh \<Longrightarrow>
   P (fst (snd (fetchGasLoop net nowIso payload retries i sh)))"
proof (induction net nowIso payload retries i sh rule: fetchGasLoop.induct)
  case (1 net nowIso payload retries i sh)
  from "1.prems"(1) have keep: "P (snd (updateVideoStatus nowIso payload s))" if "P s" for s
    using that by simp
  show ?case
  proof (cases "i < retries")
    case False
    with "1.prems"(2) show ?thesis
      by (subst fetchGasLoop.simps) simp
  next
    case True
    obtain res sh1 where att: "gasAttempt (net i) nowIso payload sh = (res, sh1)"
      by (cases "gasAttempt (net i) nowIso payload sh")
    have p1: "P sh1"
    proof (cases "net i")
      case Delivered
      with att have "sh1 = snd (updateVideoStatus nowIso payload sh)"
        by (auto simp: gasAttempt_def split: prod.splits)
      with keep [OF "1.prems"(2)] show ?thesis by simp
    next
      case (Failed e)
      with att "1.prems"(2) show ?thesis
        by (simp add: gasAttempt_def)
    next
      case (ReplyLost e)
      with att have "sh1 = snd (updateVideoStatus nowIso payload sh)"
        by (simp add: gasAttempt_def)
      with keep [OF "1.prems"(2)] show ?thesis by simp
    qed
    show ?thesis
    proof (cases res)
      case (Returns r)
      with True att p1 show ?thesis
        by (subst fetchGasLoop.simps) simp
    next
      case (Throws e)
      show ?thesis
      proof (cases "i = retries - 1")
        case True
        with \<open>i < retries\<close> att Throws p1 show ?thesis
          by (subst fetchGasLoop.simps) simp
      next
        case False
        obtain res2 sh2 es2 where
          rec: "fetchGasLoop net nowIso payload retries (Suc i) sh1 = (res2, sh2, es2)"
          by (cases "fetchGasLoop net nowIso payload retries (Suc i) sh1")
        from "1.IH" [OF \<open>i < retries\<close> att [symmetric] Throws False "1.prems"(1) p1]
        have "P sh2"
          by (simp add: rec)
        moreover have "fetchGasLoop net nowIso payload retries i sh = (res2, sh2, e # es2)"
          using \<open>i < retries\<close> att Throws False rec
          by (subst fetchGasLoop.simps) simp
        ultimately show ?thesis
          by simp
      qed
    qed
  qed
qed

text \<open>
  A lock request that the retry loop sees answered with \<open>ok\<close> found the row in
  \<open>processing\<close> when the loop began and has moved it on.
\<close>

lemma fetchGasLoop_lock_ok:
  "isLock pid payload \<Longrightarrow>
   fetchGasLoop net nowIso payload retries i sh = (Returns (Some j), sh', es) \<Longrightarrow> ok j \<Longrightarrow>
   processingAt pid sh \<and> \<not> processingAt pid sh'"
proof (induction net nowIso payload retries i sh arbitrary: es rule: fetchGasLoop.induct)
  case (1 net nowIso payload retries i sh)
  note lock = "1.prems"(1) and res = "1.prems"(2) and okj = "1.prems"(3)
  have lt: "i < retries"
  proof (rule ccontr)
    assume "\<not> i < retries"
    with res show False
      by (subst (asm) fetchGasLoop.simps) simp
  qed
  show ?case
  proof (cases "net i")
    case Delivered
    obtain r sh1 where upd: "updateVideoStatus nowIso payload sh = (r, sh1)"
      by (cases "updateVideoStatus nowIso payload sh")
    with Delivered lt res have "j = r" "sh' = sh1"
      by (subst (asm) fetchGasLoop.simps, simp add: gasAttempt_def)+
    with upd okj lock_answer [OF lock, of nowIso sh] lock_leaves_processing [OF lock, of nowIso sh]
    show ?thesis
      by simp
  next
    case (Failed e)
    then have att: "gasAttempt (net i) nowIso payload sh = (Throws e, sh)"
      by (simp add: gasAttempt_def)
    have notlast: "i \<noteq> retries - 1"
    proof
      assume "i = retries - 1"
      with lt att res show False
        by (subst (asm) fetchGasLoop.simps) simp
    qed
    obtain res2 sh2 es2 where
      rec: "fetchGasLoop net nowIso payload retries (Suc i) sh = (res2, sh2, es2)"
      by (cases "fetchGasLoop net nowIso payload retries (Suc i) sh")
    with lt att notlast res have "res2 = Returns (Some j)" "sh2 = sh'"
      by (subst (asm) fetchGasLoop.simps, simp)+
    with rec have "fetchGasLoop net nowIso payload retries (Suc i) sh = (Returns (Some j), sh', es2)"
      by simp
    from "1.IH" [OF lt att [symmetric] refl notlast lock this okj]
    show ?thesis .
  next
    case (ReplyLost e)
    let ?sh1 = "snd (updateVideoStatus nowIso payload sh)"
    from ReplyLost have att: "gasAttempt (net i) nowIso payload sh = (Throws e, ?sh1)"
      by (simp add: gasAttempt_def)
    have notlast: "i \<noteq> retries - 1"
    proof
      assume "i = retries - 1"
      with lt att res show False
        by (subst (asm) fetchGasLoop.simps) simp
    qed
    obtain res2 sh2 es2 where
      rec: "fetchGasLoop net nowIso payload retries (Suc i) ?sh1 = (res2, sh2, es2)"
      by (cases "fetchGasLoop net nowIso payload retries (Suc i) ?sh1")
    with lt att notlast res have "res2 = Returns (Some j)" "sh2 = sh'"
      by (subst (asm) fetchGasLoop.simps, simp)+
    with rec have
      "fetchGasLoop net nowIso payload retries (Suc i) ?sh1 = (Returns (Some j), sh', es2)"
      by simp
    from "1.IH" [OF lt att [symmetric] refl notlast lock this okj]
    have "processingAt pid ?sh1"
      by simp
    with lock_leaves_processing [OF lock, of nowIso sh] show ?thesis
      by simp
  qed
qed

lemma handled_refl: "t_finalize st' = t_finalize st \<Longrightarrow> t_sheet st' = t_sheet st \<Longrightarrow> handled pid st st'"
  by (simp add: handled_def triggersFor_def)

lemma lockAndTrigger_handled:
  assumes "rid task = pid"
  shows "handled pid st (lockAndTrigger env task url st)"
proof -
  let ?d = "lockPayload task url"
  have lock: "isLock pid ?d"
    using assms isLock_lockPayload [of task url] by simp
  obtain res sh' es where g: "tickGas env ?d (t_sheet st) = (res, sh', es)"
    by (cases "tickGas env ?d (t_sheet st)")
  then have loop: "fetchGasLoop (tickNet env ?d) (tickNow env) ?d 2 0 (t_sheet st) = (res, sh', es)"
    by (simp add: tickGas_def fetchGasWithRetry_def)
  have keep: "processingAt pid sh' \<longrightarrow> processingAt pid (t_sheet st)"
  proof -
    have "\<forall>s. \<not> processingAt pid s \<longrightarrow>
        \<not> processingAt pid (snd (updateVideoStatus (tickNow env) ?d s))"
      using lock_leaves_processing [OF lock] by simp
    from fetchGasLoop_keeps [where P = "\<lambda>s. \<not> processingAt pid s", OF this,
        of "t_sheet st" "tickNet env ?d" 2 0]
    show ?thesis
      by (auto simp: loop)
  qed
  show ?thesis
  proof (cases "\<exists>j. res = Returns (Some j) \<and> ok j")
    case True
    then obtain j where j: "res = Returns (Some j)" "ok j"
      by blast
    with loop have "fetchGasLoop (tickNet env ?d) (tickNow env) ?d 2 0 (t_sheet st)
        = (Returns (Some j), sh', es)"
      by simp
    from fetchGasLoop_lock_ok [OF lock this j(2)]
    have "processingAt pid (t_sheet st) \<and> \<not> processingAt pid sh'" .
    moreover have "lockAndTrigger env task url st =
        st\<lparr>t_sheet := sh', t_finalize := t_finalize st @ [finalizePayload task url],
           t_report := (t_report st)\<lparr>processed := Suc (processed (t_report st))\<rparr>\<rparr>"
      using g j by (simp add: lockAndTrigger_def)
    moreover have "photoId (finalizePayload task url) = Some pid"
      using assms by (simp add: finalizePayload_def emptyData_def)
    ultimately show ?thesis
      by (simp add: handled_def triggersFor_def)
  next
    case False
    then have "t_finalize (lockAndTrigger env task url st) = t_finalize st
        \<and> t_sheet (lockAndTrigger env task url st) = sh'"
      using g by (auto simp: lockAndTrigger_def split: outcome.splits option.splits)
    with keep show ?thesis
      by (simp add: handled_def triggersFor_def)
  qed
qed

lemma reportFailed_handled:
  assumes "rid task = pid"
  shows "handled pid st (reportFailed env task st)"
proof -
  let ?d = "failedPayload task"
  obtain res sh' es where g: "tickGas env ?d (t_sheet st) = (res, sh', es)"
    by (cases "tickGas env ?d (t_sheet st)")
  then have loop: "fetchGasLoop (tickNet env ?d) (tickNow env) ?d 2 0 (t_sheet st) = (res, sh', es)"
    by (simp add: tickGas_def fetchGasWithRetry_def)
  have "\<forall>s. \<not> processingAt pid s \<longrightarrow>
      \<not> processingAt pid (snd (updateVideoStatus (tickNow env) ?d s))"
    using failed_leaves_processing [of task] assms by simp
  from fetchGasLoop_keeps [where P = "\<lambda>s. \<not> processingAt pid s", OF this,
      of "t_sheet st" "tickNet env ?d" 2 0]
  have keep: "processingAt pid sh' \<longrightarrow> processingAt pid (t_sheet st)"
    by (auto simp: loop)
  have "t_finalize (reportFailed env task st) = t_finalize st
      \<and> t_sheet (reportFailed env task st) = sh'"
    using g by (auto simp: reportFailed_def split: outcome.splits)
  with keep show ?thesis
    by (simp add: handled_def triggersFor_def)
qed

lemma checkTask_handled:
  assumes "rid task = pid"
  shows "handled pid st (snd (checkTask env task st))"
proof -
  let ?st1 = "st\<lparr>t_polled := t_polled st @ [videoTaskId task]\<rparr>"
  have same: "handled pid st ?st1" "handled pid st st"
    by (simp_all add: handled_refl)
  have l: "handled pid st (lockAndTrigger env task url ?st1)" for url
    using lockAndTrigger_handled [OF assms, of ?st1 env url]
    by (simp add: handled_def triggersFor_def)
  have f: "handled pid st (reportFailed env task ?st1)"
    using reportFailed_handled [OF assms, of ?st1 env]
    by (simp add: handled_def triggersFor_def)
  show ?thesis
    using same l f
    by (simp add: checkTask_def Let_def split: poll_reply.splits)
qed

lemma runChecks_triggers:
  assumes "\<forall>t\<in>set ticks. rid (snd t) = pid"
    and "triggersFor pid st \<le> 1"
    and "triggersFor pid st = 1 \<longrightarrow> \<not> processingAt pid (t_sheet st)"
  shows "triggersFor pid (runChecks ticks st) \<le> 1"
  using assms
proof (induction ticks arbitrary: st)
  case Nil
  then show ?case by simp
next
  case (Cons t ticks)
  obtain env task where t: "t = (env, task)"
    by (cases t)
  with Cons.prems(1) have r: "rid task = pid"
    by simp
  let ?st' = "snd (checkTask env task st)"
  have h: "handled pid st ?st'"
    using r by (rule checkTask_handled)
  have a: "triggersFor pid ?st' \<le> 1"
    using h Cons.prems(2,3) by (auto simp: handled_def)
  have b: "triggersFor pid ?st' = 1 \<longrightarrow> \<not> processingAt pid (t_sheet ?st')"
    using h Cons.prems(2,3) by (auto simp: handled_def)
  from Cons.prems(1) have "\<forall>t\<in>set ticks. rid (snd t) = pid"
    by simp
  from Cons.IH [OF this a b] show ?case
    by (simp add: t)
qed

lemma runUpdates_after_lock:
  assumes "\<forall>d\<in>set ds. isLock pid (snd d)"
    and "findRow (Some pid) sh = Some i" and "videoStatus (sh ! i) = c" and "c \<noteq> ''processing''"
  shows "runUpdates ds sh = (replicate (length ds) (JsonMismatch c), sh)"
  using assms(1)
proof (induction ds)
  case Nil
  show ?case by simp
next
  case (Cons d ds)
  obtain nowIso q where d: "d = (nowIso, q)"
    by (cases d)
  with Cons.prems have "isLock pid q"
    by simp
  with assms(2,3,4) have "updateVideoStatus nowIso q sh = (JsonMismatch c, sh)"
    by (simp add: updateVideoStatus_def executeWithLock_def isLock_def truthy_def Let_def)
  moreover from Cons have "runUpdates ds sh = (replicate (length ds) (JsonMismatch c), sh)"
    by simp
  ultimately show ?case
    by (simp add: d)
qed

lemma runUpdates_locks:
  assumes "\<forall>d\<in>set ds. isLock pid (snd d)" and "ds \<noteq> []"
    and "findRow (Some pid) sh = Some i" and "videoStatus (sh ! i) = ''processing''"
  shows "fst (runUpdates ds sh) = JsonOk # replicate (length ds - 1) (JsonMismatch ''uploading'')"
proof -
  from assms(2) obtain d rest where ds: "ds = d # rest"
    by (cases ds) simp_all
  obtain nowIso q where d: "d = (nowIso, q)"
    by (cases d)
  from assms(1) ds d have lock: "isLock pid q" and rest: "\<forall>d\<in>set rest. isLock pid (snd d)"
    by simp_all
  let ?r = "statusWrites nowIso q (sh ! i)"
  from assms(3) have b: "i < length sh"
    by (rule findRow_bound)
  from lock assms(3,4) have first: "updateVideoStatus nowIso q sh = (JsonOk, sh[i := ?r])"
    by (simp add: updateVideoStatus_def executeWithLock_def isLock_def truthy_def Let_def)
  have found: "findRow (Some pid) (sh[i := ?r]) = Some i"
    using assms(3) by (rule findRow_update) simp
  have st: "videoStatus (sh[i := ?r] ! i) = ''uploading''"
    using lock b by (simp add: statusWrites_def Let_def isLock_def truthy_def)
  have "runUpdates rest (sh[i := ?r]) =
      (replicate (length rest) (JsonMismatch ''uploading''), sh[i := ?r])"
    using rest found st by (rule runUpdates_after_lock) simp
  with first show ?thesis
    by (simp add: ds d)
qed

lemma lockAndTrigger_finalize:
  "t_finalize (lockAndTrigger env task url st) =
     t_finalize st @
       (if \<exists>j. fst (tickGas env (lockPayload task url) (t_sheet st)) = Returns (Some j) \<and> ok j
        then [finalizePayload task url] else [])"
  by (auto simp: lockAndTrigger_def split: prod.splits outcome.splits option.splits)

lemma reportFailed_finalize [simp]:
  "t_finalize (reportFailed env task st) = t_finalize st"
  by (simp add: reportFailed_def split: prod.splits outcome.splits)

lemma checkTask_finalize:
  "t_finalize (snd (checkTask env task st)) = t_finalize st
   \<or> (\<exists>url j. fst (tickGas env (lockPayload task url) (t_sheet st)) = Returns (Some j) \<and> ok j
        \<and> t_finalize (snd (checkTask env task st)) = t_finalize st @ [finalizePayload task url])"
proof -
  let ?st1 = "st\<lparr>t_polled := t_polled st @ [videoTaskId task]\<rparr>"
  have l: "t_finalize (lockAndTrigger env task url ?st1) = t_finalize st
      \<or> (\<exists>j. fst (tickGas env (lockPayload task url) (t_sheet st)) = Returns (Some j) \<and> ok j
           \<and> t_finalize (lockAndTrigger env task url ?st1)
               = t_finalize st @ [finalizePayload task url])" for url
    using lockAndTrigger_finalize [of env task url ?st1]
    by (cases "\<exists>j. fst (tickGas env (lockPayload task url) (t_sheet st)) = Returns (Some j) \<and> ok j")
      simp_all
  show ?thesis
  proof (cases "t_finalize (snd (checkTask env task st)) = t_finalize st")
    case True
    then show ?thesis by (rule disjI1)
  next
    case False
    then obtain url where u: "snd (checkTask env task st) = lockAndTrigger env task url ?st1"
      by (auto simp: checkTask_def Let_def split: if_splits poll_reply.splits)
    with False l [of url] show ?thesis
      by (simp only: u) blast
  qed
qed

text \<open>
  C1. Let the row that requests for \<open>pid\<close> find be in \<open>processing\<close>. Of a non-empty
  sequence of lock requests for it (\<open>requireStatus\<close> \<open>processing\<close>, \<open>status\<close>
  \<open>uploading\<close>), run one after the other, the first is answered \<open>{ok:true}\<close> and every
  later one \<open>{ok:false, error:'Status mismatch', current:'uploading'}\<close>. The tick's
  handling of a row adds a \<open>finalizeVideoUpload\<close> request only when its lock request
  was answered with \<open>ok\<close>. Hence, however many ticks handle the row one after the other,
  whatever the provider and the network do in each, at most one of them triggers the
  finalizer for it.
\<close>

theorem no_duplicate_finalization:
  assumes "findRow (Some pid) sh = Some i" and "videoStatus (sh ! i) = ''processing''"
    and "\<forall>d\<in>set ds. isLock pid (snd d)" and "ds \<noteq> []"
  shows "fst (runUpdates ds sh) = JsonOk # replicate (length ds - 1) (JsonMismatch ''uploading'')
     \<and> (\<forall>env task st.
          t_finalize (snd (checkTask env task st)) = t_finalize st
          \<or> (\<exists>url j. fst (tickGas env (lockPayload task url) (t_sheet st)) = Returns (Some j)
                \<and> ok j
                \<and> t_finalize (snd (checkTask env task st)) =
                    t_finalize st @ [finalizePayload task url]))
     \<and> (\<forall>ticks. (\<forall>t\<in>set ticks. rid (snd t) = pid) \<longrightarrow>
          triggersFor pid (runChecks ticks (newTick sh)) \<le> 1)"
proof (intro conjI allI impI)
  show "fst (runUpdates ds sh) = JsonOk # replicate (length ds - 1) (JsonMismatch ''uploading'')"
    using assms(3,4,1,2) by (rule runUpdates_locks)
next
  fix env task st
  show "t_finalize (snd (checkTask env task st)) = t_finalize st
          \<or> (\<exists>url j. fst (tickGas env (lockPayload task url) (t_sheet st)) = Returns (Some j)
                \<and> ok j
                \<and> t_finalize (snd (checkTask env task st)) =
                    t_finalize st @ [finalizePayload task url])"
    by (rule checkTask_finalize)
next
  fix ticks :: "(tick_env \<times> row) list"
  assume "\<forall>t\<in>set ticks. rid (snd t) = pid"
  moreover have "triggersFor pid (newTick sh) = 0"
    by (simp add: triggersFor_def newTick_def)
  ultimately show "triggersFor pid (runChecks ticks (newTick sh)) \<le> 1"
    by (intro runChecks_triggers) simp_all
qed

lemma fiveTicks_once: "triggersFor ''p1'' (runChecks fiveTicks (newTick [runningRow])) = 1"
  by code_simp

theorem no_duplicate_finalization_witness:
  "findRow (Some ''p1'') [runningRow] = Some 0
   \<and> videoStatus ([runningRow] ! 0) = ''processing''
   \<and> fst (runUpdates fiveLocks [runningRow]) =
       [JsonOk, JsonMismatch ''uploading'', JsonMismatch ''uploading'', JsonMismatch ''uploading'',
        JsonMismatch ''uploading'']
   \<and> triggersFor ''p1'' (runChecks fiveTicks (newTick [runningRow])) = 1"
proof -
  have f: "findRow (Some ''p1'') [runningRow] = Some 0"
    by (simp add: runningRow_def blankRow_def)
  have p: "videoStatus ([runningRow] ! 0) = ''processing''"
    by (simp add: runningRow_def blankRow_def)
  have l: "\<forall>d\<in>set fiveLocks. isLock ''p1'' (snd d)"
    by (simp add: fiveLocks_def isLock_def lockPayload_def emptyData_def runningRow_def
        blankRow_def)
  have n: "fiveLocks \<noteq> []" "length fiveLocks = 5"
    by (simp_all add: fiveLocks_def)
  have r: "replicate (5 - 1) (JsonMismatch ''uploading'') =
      [JsonMismatch ''uploading'', JsonMismatch ''uploading'', JsonMismatch ''uploading'',
       JsonMismatch ''uploading'']"
    by (simp add: numeral_eq_Suc)
  from no_duplicate_finalization [OF f p l n(1)]
  have "fst (runUpdates fiveLocks [runningRow]) =
      JsonOk # replicate (length fiveLocks - 1) (JsonMismatch ''uploading'')"
    by (rule conjunct1)
  with n(2) r f p fiveTicks_once show ?thesis
    by simp
qed

end
